theory Spec2Isabelle
  imports Main "HOL-Library.Word"
begin

unbundle bit_operations_syntax

section \<open>Data model\<close>

text \<open>
  The command-line driver of the G3-PLC modem: \<^verbatim>\<open>main\<close> of \<^verbatim>\<open>hybrid/main.c\<close> and the
  single-shot sender mode of \<^verbatim>\<open>g3-plc/send-mode.c\<close>.

  \<^verbatim>\<open>struct context\<close> is declared in a header that is not part of the sources; its three
  fields are the ones \<^verbatim>\<open>main\<close> initialises (\<^verbatim>\<open>.verbose = 0, .dst_mac = 0xffff,
  .gpio_reset = -1\<close>). The destination is a 16-bit short address (it is passed on as
  \<^verbatim>\<open>uint16_t\<close>), the reset pin is a signed \<^verbatim>\<open>int\<close> (it is compared with 0).
\<close>

record struct_context =
  verbose :: int
  dst_mac :: "16 word"
  gpio_reset :: int

text \<open>
  \<^verbatim>\<open>struct hybrid_config\<close>, as far as \<^verbatim>\<open>main\<close> reads or writes it. A function pointer is
  the name of the function it points to, \<open>None\<close> is \<^verbatim>\<open>NULL\<close>. The platform pointers
  (\<^verbatim>\<open>uart_send\<close>, \<^verbatim>\<open>start_timer\<close>, \<^verbatim>\<open>htons\<close>, ...), the band plan and the back pointer
  \<^verbatim>\<open>.data = &ctx\<close> are set once by the initialiser and never written again; they are
  left out. \<^verbatim>\<open>mac_address\<close> has no initialiser, so it starts at zero.
\<close>

record hybrid_config =
  cb_raw :: "string option"
  cb_recv :: "string option"
  pan_id :: "16 word"
  ext_address :: nat
  mac_address :: "16 word"
  retrans :: "32 word"
  timeout :: "32 word"
  flags :: "32 word"

text \<open>
  What the functions and macros that \<^verbatim>\<open>main\<close> calls but that are not part of the sources
  return: \<^verbatim>\<open>xatou\<close> gives a value and an error flag, \<^verbatim>\<open>strtol\<close> takes the text and the
  base, \<^verbatim>\<open>rpi_gpio_check\<close> tells whether a pin number is valid. The two flag bits and the
  default baud rate are constants of absent headers.
\<close>

record env =
  xatou :: "string \<Rightarrow> 32 word \<times> int"
  strtol :: "string \<Rightarrow> nat \<Rightarrow> int"
  rpi_gpio_check :: "int \<Rightarrow> bool"
  baud :: "string \<Rightarrow> nat"
  B9600 :: nat
  G3PLC_INVALID :: "32 word"
  G3PLC_NOACK :: "32 word"

definition EXIT_SUCCESS :: int where
  "EXIT_SUCCESS = 0"

definition EXIT_FAILURE :: int where
  "EXIT_FAILURE = 1"

text \<open>\<^verbatim>\<open>enum opt { OPT_COMMIT = 0x100, OPT_IRQ, OPT_CTS, OPT_RESET }\<close>\<close>

definition OPT_COMMIT :: int where
  "OPT_COMMIT = 0x100"

definition OPT_IRQ :: int where
  "OPT_IRQ = 0x101"

definition OPT_CTS :: int where
  "OPT_CTS = 0x102"

definition OPT_RESET :: int where
  "OPT_RESET = 0x103"

text \<open>The value \<^verbatim>\<open>getopt_long\<close> returns for a short option is its character code.\<close>

definition opt_char :: "char \<Rightarrow> int" where
  "opt_char ch = of_char ch"

subsection \<open>What a run does\<close>

text \<open>What the mode's program does, in order: the calls it makes and the lines it prints.\<close>

datatype mode_event =
    Clock_gettime
  | G3plc_send "16 word" string nat
  | Putchar char
  | Print_time
  | Print_tx_status int

datatype thread = Main_thread | Output_thread | Input_thread

text \<open>
  Every call of \<^verbatim>\<open>main\<close> and of the two thread functions that is visible outside the
  process, with the value it returned where the code looks at it.
\<close>

datatype event =
    Ev_parse_option int
  | Ev_version
  | Ev_help
  | Ev_errx string
  | Ev_summary
  | Ev_serial_init string nat
  | Ev_printf string
  | Ev_gpio_init
  | Ev_gpio_set_mode int
  | Ev_mode_init
  | Ev_block_signals thread int
  | Ev_hybrid_init hybrid_config int
  | Ev_create thread int
  | Ev_join thread
  | Ev_start "mode_event list"
  | Ev_destroy "mode_event list"
  | Ev_exit int

subsection \<open>The mode descriptor\<close>

text \<open>
  \<^verbatim>\<open>struct iface_mode\<close>: a name, an option grammar and four function pointers. The type
  \<open>'m\<close> is the mode's own file-scope state. \<^verbatim>\<open>parse_option\<close> gets the context as a pointer
  to \<^verbatim>\<open>const\<close>, the option character, and reads the global \<^verbatim>\<open>optarg\<close>; \<^verbatim>\<open>init\<close> gets the
  context as a pointer to \<^verbatim>\<open>const\<close> and the configuration to fill in; \<^verbatim>\<open>start\<close> and
  \<^verbatim>\<open>destroy\<close> get the context as a pointer to \<^verbatim>\<open>const\<close>. The integer given to \<open>start\<close> is
  what the driver's send operation returns to it.
\<close>

record 'm iface_mode =
  name :: string
  description :: string
  optstring :: string
  parse_option :: "struct_context \<Rightarrow> int \<Rightarrow> string \<Rightarrow> 'm \<Rightarrow> int \<times> 'm"
  init :: "struct_context \<Rightarrow> hybrid_config \<Rightarrow> hybrid_config"
  start :: "struct_context \<Rightarrow> 'm \<Rightarrow> int \<Rightarrow> mode_event list"
  destroy :: "struct_context \<Rightarrow> mode_event list"

subsection \<open>The process\<close>

text \<open>
  Where the main thread stands once option parsing and driver set-up are done: one
  point for each call whose outcome is not decided by the program alone.
\<close>

datatype main_pc =
    At_setup
  | At_block_signals
  | At_hybrid_init
  | At_io_block_signals
  | At_create_output
  | At_create_input
  | At_check_err
  | At_join
  | At_destroy
  | At_EXIT

datatype thread_state = Not_created | Created | In_read_loop | Returned

text \<open>
  The locals of \<^verbatim>\<open>main\<close> and of \<^verbatim>\<open>start_io_threads\<close>, the mode's statics, the state of
  the three threads, which threads have \<^verbatim>\<open>SIGALRM\<close> in their signal mask, the status the
  process ended with (if it has ended), and what it did so far.
\<close>

record 'm proc =
  ctx :: struct_context
  hybrid :: hybrid_config
  statics :: 'm
  speed :: nat
  speed_str :: string
  device :: string
  exit_status :: int
  err :: int
  main_pc :: main_pc
  output_thread :: thread_state
  input_thread :: thread_state
  sigalrm_blocked :: "thread \<Rightarrow> bool"
  exited :: "int option"
  trace :: "event list"

definition log :: "event \<Rightarrow> 'm proc \<Rightarrow> 'm proc" where
  "log e s = s\<lparr>trace := trace s @ [e]\<rparr>"

text \<open>\<^verbatim>\<open>errx(EXIT_FAILURE, msg)\<close> and \<^verbatim>\<open>err(EXIT_FAILURE, msg)\<close>: print and end the process.\<close>

definition errx :: "string \<Rightarrow> 'm proc \<Rightarrow> 'm proc" where
  "errx msg s = (log (Ev_errx msg) s)\<lparr>exited := Some EXIT_FAILURE\<rparr>"

text \<open>The label \<^verbatim>\<open>EXIT\<close>: free the strings and \<^verbatim>\<open>exit(exit_status)\<close>.\<close>

definition goto_EXIT :: "'m proc \<Rightarrow> 'm proc" where
  "goto_EXIT s = (log (Ev_exit (exit_status s)) s)\<lparr>exited := Some (exit_status s)\<rparr>"

section \<open>Option parsing\<close>

text \<open>The initialisers at the top of \<^verbatim>\<open>main\<close>.\<close>

definition initial_proc :: "env \<Rightarrow> 'm \<Rightarrow> 'm proc" where
  "initial_proc E st =
     \<lparr> ctx = \<lparr> verbose = 0, dst_mac = 0xffff, gpio_reset = - 1 \<rparr>,
       hybrid = \<lparr> cb_raw = None, cb_recv = None, pan_id = 0xAAAA, ext_address = 0,
                  mac_address = 0, retrans = 5, timeout = 1000000, flags = 0 \<rparr>,
       statics = st,
       speed = B9600 E,
       speed_str = ''9600'',
       device = [],
       exit_status = EXIT_FAILURE,
       err = 0,
       main_pc = At_setup,
       output_thread = Not_created,
       input_thread = Not_created,
       sigalrm_blocked = (\<lambda>t. False),
       exited = None,
       trace = [] \<rparr>"

text \<open>
  The \<^verbatim>\<open>switch\<close> on the option character, in two parts: which \<^verbatim>\<open>case\<close> label the
  character selects, and what the statements under that label do. \<^verbatim>\<open>COMMIT\<close> is taken as
  not defined (with it the table of \<^verbatim>\<open>print_help\<close> lacks a comma and does not compile).
  The case \<^verbatim>\<open>'h'\<close> falls through into \<^verbatim>\<open>default\<close>.
\<close>

datatype case_label =
    Case_OPT_RESET
  | Case_v
  | Case_i
  | Case_a
  | Case_d
  | Case_t
  | Case_r
  | Case_B
  | Case_V
  | Case_h
  | Case_default

definition switch_label :: "int \<Rightarrow> case_label" where
  "switch_label c =
     (if c = OPT_RESET then Case_OPT_RESET
      else if c = opt_char CHR ''v'' then Case_v
      else if c = opt_char CHR ''i'' then Case_i
      else if c = opt_char CHR ''a'' then Case_a
      else if c = opt_char CHR ''d'' then Case_d
      else if c = opt_char CHR ''t'' then Case_t
      else if c = opt_char CHR ''r'' then Case_r
      else if c = opt_char CHR ''B'' then Case_B
      else if c = opt_char CHR ''V'' then Case_V
      else if c = opt_char CHR ''h'' then Case_h
      else Case_default)"

definition common_option :: "env \<Rightarrow> int \<Rightarrow> string \<Rightarrow> 'm proc \<Rightarrow> 'm proc" where
  "common_option E c optarg s =
    (case switch_label c of
       Case_OPT_RESET \<Rightarrow>
         (case xatou E optarg of
            (v, e) \<Rightarrow>
              (let s1 = s\<lparr>ctx := (ctx s)\<lparr>gpio_reset := sint v\<rparr>\<rparr>
               in if e \<noteq> 0 then errx ''cannot parse RESET GPIO'' s1
                  else if \<not> rpi_gpio_check E (gpio_reset (ctx s1))
                       then errx ''invalid RESET GPIO number'' s1
                  else s1))
     | Case_v \<Rightarrow> s\<lparr>ctx := (ctx s)\<lparr>verbose := 1\<rparr>\<rparr>
     | Case_i \<Rightarrow> s\<lparr>hybrid := (hybrid s)\<lparr>flags := flags (hybrid s) OR G3PLC_INVALID E\<rparr>\<rparr>
     | Case_a \<Rightarrow> s\<lparr>hybrid := (hybrid s)\<lparr>flags := flags (hybrid s) OR G3PLC_NOACK E\<rparr>\<rparr>
     | Case_d \<Rightarrow> s\<lparr>ctx := (ctx s)\<lparr>dst_mac := word_of_int (strtol E optarg 16)\<rparr>\<rparr>
     | Case_t \<Rightarrow>
         (case xatou E optarg of
            (v, e) \<Rightarrow>
              (let s1 = s\<lparr>hybrid := (hybrid s)\<lparr>timeout := v\<rparr>\<rparr>
               in if e \<noteq> 0 then errx ''cannot parse timeout value'' s1 else s1))
     | Case_r \<Rightarrow>
         (case xatou E optarg of
            (v, e) \<Rightarrow>
              (let s1 = s\<lparr>hybrid := (hybrid s)\<lparr>retrans := v\<rparr>\<rparr>
               in if e \<noteq> 0 then errx ''cannot parse retransmissions value'' s1
                  else if retrans (hybrid s1) < 1
                       then errx ''invalid number of retransmissions'' s1
                  else s1))
     | Case_B \<Rightarrow> s\<lparr>speed_str := optarg, speed := baud E optarg\<rparr>
     | Case_V \<Rightarrow> goto_EXIT ((log Ev_version s)\<lparr>exit_status := EXIT_SUCCESS\<rparr>)
     | Case_h \<Rightarrow> goto_EXIT (log Ev_help (s\<lparr>exit_status := EXIT_SUCCESS\<rparr>))
     | Case_default \<Rightarrow> goto_EXIT (log Ev_help s))"

text \<open>
  The \<^verbatim>\<open>while(1)\<close> loop over what \<^verbatim>\<open>getopt_long\<close> returns. The list holds the values
  returned before the first \<open>-1\<close>, each with the value of \<^verbatim>\<open>optarg\<close> that goes with it;
  the end of the list is the \<open>-1\<close> that breaks the loop. The mode's \<^verbatim>\<open>parse_option\<close> is
  called first, and \<^verbatim>\<open>continue\<close> skips the \<^verbatim>\<open>switch\<close> when it returns non-zero.
\<close>

fun getopt_loop :: "'m iface_mode \<Rightarrow> env \<Rightarrow> (int \<times> string) list \<Rightarrow> 'm proc \<Rightarrow> 'm proc" where
  "getopt_loop M E [] s = s"
| "getopt_loop M E ((c, optarg) # rest) s =
    (case parse_option M (ctx s) c optarg (statics s) of
       (r, st') \<Rightarrow>
         (let s1 = log (Ev_parse_option c) (s\<lparr>statics := st'\<rparr>)
          in if r \<noteq> 0 then getopt_loop M E rest s1
             else (let s2 = common_option E c optarg s1
                   in if exited s2 \<noteq> None then s2 else getopt_loop M E rest s2)))"

section \<open>Set-up after the options\<close>

definition configure_gpio :: "'m proc \<Rightarrow> 'm proc" where
  "configure_gpio s =
     (if gpio_reset (ctx s) < 0 then s
      else log (Ev_gpio_set_mode (gpio_reset (ctx s))) (log Ev_gpio_init s))"

text \<open>\<^verbatim>\<open>IF_VERBOSE(ctx, stmt)\<close> runs the statement when \<^verbatim>\<open>ctx->verbose\<close> is not zero.\<close>

definition initialize_driver :: "'m proc \<Rightarrow> 'm proc" where
  "initialize_driver s =
     (let s1 = log (Ev_serial_init (device s) (speed s)) s;
          s2 = (if verbose (ctx s1) \<noteq> 0 then log (Ev_printf ''Serial initialized!'') s1 else s1)
      in configure_gpio s2)"

text \<open>
  \<^verbatim>\<open>main\<close> from its first line to the call of the mode's \<^verbatim>\<open>init\<close>: the options, the two
  positional arguments (\<open>args\<close> is \<^verbatim>\<open>argv\<close> from \<^verbatim>\<open>optind\<close> on), the summary, the serial
  line and the reset pin, the mode's \<^verbatim>\<open>init\<close>. Everything here is sequential: no thread
  exists yet.
\<close>

definition main_setup ::
  "'m iface_mode \<Rightarrow> env \<Rightarrow> 'm \<Rightarrow> (int \<times> string) list \<Rightarrow> string list \<Rightarrow> 'm proc" where
  "main_setup M E st opts args =
     (let s = getopt_loop M E opts (initial_proc E st)
      in if exited s \<noteq> None then s
         else if length args \<noteq> 2 then goto_EXIT (log Ev_help s)
         else (let s1 = s\<lparr>hybrid := (hybrid s)\<lparr>mac_address := word_of_int (strtol E (args ! 0) 16)\<rparr>,
                          device := args ! 1,
                          exit_status := EXIT_SUCCESS\<rparr>;
                   s2 = (if verbose (ctx s1) \<noteq> 0 then log Ev_summary s1 else s1);
                   s3 = initialize_driver s2;
                   s4 = log Ev_mode_init (s3\<lparr>hybrid := init M (ctx s3) (hybrid s3)\<rparr>)
               in s4\<lparr>main_pc := At_block_signals\<rparr>))"

section \<open>The threads\<close>

text \<open>
  \<^verbatim>\<open>thread_block_signals\<close>: the calling thread adds \<^verbatim>\<open>SIGALRM\<close> to its signal mask; when
  \<^verbatim>\<open>pthread_sigmask\<close> returns non-zero the process ends.
\<close>

definition thread_block_signals :: "thread \<Rightarrow> int \<Rightarrow> 'm proc \<Rightarrow> 'm proc" where
  "thread_block_signals t r s =
     (let s1 = log (Ev_block_signals t r) s
      in if r \<noteq> 0 then errx ''cannot block signals'' s1
         else s1\<lparr>sigalrm_blocked := (sigalrm_blocked s1)(t := True)\<rparr>)"

text \<open>
  \<^verbatim>\<open>pthread_create\<close> called by the main thread: on success (return value 0) the new
  thread exists, and it starts with the signal mask of the thread that created it.
\<close>

definition pthread_create :: "thread \<Rightarrow> int \<Rightarrow> 'm proc \<Rightarrow> 'm proc" where
  "pthread_create t r s =
     (let s1 = log (Ev_create t r) s
      in if r \<noteq> 0 then s1
         else (let s2 = s1\<lparr>sigalrm_blocked := (sigalrm_blocked s1)(t := sigalrm_blocked s1 Main_thread)\<rparr>
               in if t = Output_thread then s2\<lparr>output_thread := Created\<rparr>
                  else if t = Input_thread then s2\<lparr>input_thread := Created\<rparr>
                  else s2))"

text \<open>
  One step of the main thread, from the first \<^verbatim>\<open>thread_block_signals\<close> of \<^verbatim>\<open>main\<close> to
  \<^verbatim>\<open>exit\<close>. The integer is what the library call of that step returns:
  \<^verbatim>\<open>pthread_sigmask\<close>, \<^verbatim>\<open>hybrid_init\<close>, \<^verbatim>\<open>pthread_create\<close>. \<^verbatim>\<open>pthread_join\<close> blocks until the
  output thread has returned.
\<close>

definition main_step :: "'m iface_mode \<Rightarrow> int \<Rightarrow> 'm proc \<Rightarrow> 'm proc" where
  "main_step M r s =
     (case main_pc s of
        At_setup \<Rightarrow> s
      | At_block_signals \<Rightarrow>
          (let s1 = thread_block_signals Main_thread r s
           in if exited s1 \<noteq> None then s1 else s1\<lparr>main_pc := At_hybrid_init\<rparr>)
      | At_hybrid_init \<Rightarrow>
          (let s1 = log (Ev_hybrid_init (hybrid s) r) s
           in if r < 0 then errx ''cannot initialize G3-PLC'' s1
              else s1\<lparr>main_pc := At_io_block_signals\<rparr>)
      | At_io_block_signals \<Rightarrow>
          (let s1 = thread_block_signals Main_thread r s
           in if exited s1 \<noteq> None then s1 else s1\<lparr>main_pc := At_create_output\<rparr>)
      | At_create_output \<Rightarrow>
          (pthread_create Output_thread r s)\<lparr>err := r, main_pc := At_create_input\<rparr>
      | At_create_input \<Rightarrow>
          (pthread_create Input_thread r s)\<lparr>err := err s OR r, main_pc := At_check_err\<rparr>
      | At_check_err \<Rightarrow>
          (if err s \<noteq> 0 then errx ''cannot create threads'' s else s\<lparr>main_pc := At_join\<rparr>)
      | At_join \<Rightarrow>
          (if output_thread s = Returned then (log (Ev_join Output_thread) s)\<lparr>main_pc := At_destroy\<rparr>
           else s)
      | At_destroy \<Rightarrow> (log (Ev_destroy (destroy M (ctx s))) s)\<lparr>main_pc := At_EXIT\<rparr>
      | At_EXIT \<Rightarrow> goto_EXIT s)"

text \<open>
  \<^verbatim>\<open>output_thread_func\<close>: run the mode's \<^verbatim>\<open>start\<close> and return. The integer is what the
  driver's send operation returns inside \<^verbatim>\<open>start\<close>.
\<close>

definition output_thread_func :: "'m iface_mode \<Rightarrow> int \<Rightarrow> 'm proc \<Rightarrow> 'm proc" where
  "output_thread_func M r s =
     (case output_thread s of
        Created \<Rightarrow> (log (Ev_start (start M (ctx s) (statics s) r)) s)\<lparr>output_thread := Returned\<rparr>
      | _ \<Rightarrow> s)"

text \<open>
  \<^verbatim>\<open>input_thread_func\<close>: block the signal, then \<^verbatim>\<open>uart_read_loop\<close>, which is not part of
  the sources: a step of it either goes on reading (0) or makes it return.
\<close>

definition input_thread_func :: "int \<Rightarrow> 'm proc \<Rightarrow> 'm proc" where
  "input_thread_func r s =
     (case input_thread s of
        Created \<Rightarrow>
          (let s1 = thread_block_signals Input_thread r s
           in if exited s1 \<noteq> None then s1 else s1\<lparr>input_thread := In_read_loop\<rparr>)
      | In_read_loop \<Rightarrow> (if r \<noteq> 0 then s\<lparr>input_thread := Returned\<rparr> else s)
      | _ \<Rightarrow> s)"

text \<open>
  A schedule says which thread takes the next step and what its library call returns.
  Nothing moves once the process has ended.
\<close>

datatype action = Main_step int | Output_step int | Input_step int

definition step :: "'m iface_mode \<Rightarrow> 'm proc \<Rightarrow> action \<Rightarrow> 'm proc" where
  "step M s a =
     (if exited s \<noteq> None then s
      else (case a of
              Main_step r \<Rightarrow> main_step M r s
            | Output_step r \<Rightarrow> output_thread_func M r s
            | Input_step r \<Rightarrow> input_thread_func r s))"

definition run_threads :: "'m iface_mode \<Rightarrow> action list \<Rightarrow> 'm proc \<Rightarrow> 'm proc" where
  "run_threads M sched s = foldl (step M) s sched"

text \<open>A run of the program: the set-up, then the threads under a schedule.\<close>

definition main ::
  "'m iface_mode \<Rightarrow> env \<Rightarrow> 'm \<Rightarrow> (int \<times> string) list \<Rightarrow> string list \<Rightarrow> action list \<Rightarrow> 'm proc" where
  "main M E st opts args sched = run_threads M sched (main_setup M E st opts args)"

section \<open>The send mode\<close>

text \<open>The statics of \<^verbatim>\<open>send-mode.c\<close>: \<^verbatim>\<open>display_time\<close> and \<^verbatim>\<open>message\<close>.\<close>

record send_statics =
  display_time :: int
  message :: string

definition send_statics_initial :: send_statics where
  "send_statics_initial = \<lparr> display_time = 0, message = ''Hello World!'' \<rparr>"

definition strlen :: "string \<Rightarrow> nat" where
  "strlen s = length (takeWhile (\<lambda>ch. ch \<noteq> CHR 0x00) s)"

text \<open>
  The four operations of the mode are \<^verbatim>\<open>static\<close> functions named \<^verbatim>\<open>init\<close>, \<^verbatim>\<open>start\<close>,
  \<^verbatim>\<open>destroy\<close> and \<^verbatim>\<open>parse_option\<close>; here they carry the prefix of their file.
\<close>

definition send_init :: "struct_context \<Rightarrow> hybrid_config \<Rightarrow> hybrid_config" where
  "send_init c g = g\<lparr>cb_recv := Some ''cb_recv''\<rparr>"

definition send_start :: "struct_context \<Rightarrow> send_statics \<Rightarrow> int \<Rightarrow> mode_event list" where
  "send_start c st ret =
     [Clock_gettime, G3plc_send (dst_mac c) (message st) (strlen (message st)), Clock_gettime,
      Putchar CHR 0x0A]
     @ (if display_time st \<noteq> 0 then [Print_time] else [])
     @ [Print_tx_status ret]"

definition send_destroy :: "struct_context \<Rightarrow> mode_event list" where
  "send_destroy c = []"

definition send_parse_option ::
  "struct_context \<Rightarrow> int \<Rightarrow> string \<Rightarrow> send_statics \<Rightarrow> int \<times> send_statics" where
  "send_parse_option c ch optarg st =
     (if ch = opt_char CHR ''T'' then (1, st\<lparr>display_time := 1\<rparr>)
      else if ch = opt_char CHR ''m'' then (1, st\<lparr>message := optarg\<rparr>)
      else (0, st))"

definition send_mode :: "send_statics iface_mode" where
  "send_mode =
     \<lparr> name = ''send'', description = ''Send a single frame'', optstring = ''Tm:'',
       parse_option = send_parse_option, init = send_init, start = send_start,
       destroy = send_destroy \<rparr>"

text \<open>The table of \<^verbatim>\<open>print_help\<close>: short option, long option, help text.\<close>

definition common_messages :: "(int \<times> string \<times> string) list" where
  "common_messages =
     [(opt_char CHR ''h'', ''help'', ''Show this help message''),
      (opt_char CHR ''V'', ''version'', ''Show version information''),
      (opt_char CHR ''v'', ''verbose'', ''Enable verbose mode''),
      (opt_char CHR ''i'', ''invalid'', ''Do not filter invalid packets (packet header, CRC)''),
      (opt_char CHR ''a'', ''no-ack'', ''Do not answer nor expect ACKs''),
      (opt_char CHR ''t'', ''timeout'', ''ACK timeout in microseconds (default 4s)''),
      (opt_char CHR ''r'', ''retransmissions'', ''Maximum number of retransmissions (default 3)''),
      (opt_char CHR ''B'', ''baud'', ''Specify the baud rate (default 9600)''),
      (opt_char CHR ''d'', ''destination'',
         ''Destination MAC (hex. short address, default to broadcast)''),
      (0, ''reset'', ''RESET RPi GPIO'')]"

section \<open>An environment to run the program in\<close>

text \<open>
  A stand-in for the absent helpers, used to evaluate runs: numerals are read digit by
  digit in their base, an optional \<^verbatim>\<open>0x\<close> in front of a hexadecimal one is skipped, text
  that is not a numeral is an error for \<^verbatim>\<open>xatou\<close> and 0 for \<^verbatim>\<open>strtol\<close>; the pins 2 to 27 are
  valid.
\<close>

definition digit_val :: "char \<Rightarrow> nat" where
  "digit_val ch =
     (let n = (of_char ch :: nat)
      in if 48 \<le> n \<and> n \<le> 57 then n - 48
         else if 97 \<le> n \<and> n \<le> 102 then n - 87
         else if 65 \<le> n \<and> n \<le> 70 then n - 55
         else 36)"

definition read_num :: "nat \<Rightarrow> string \<Rightarrow> nat option" where
  "read_num b s =
     (if s = [] \<or> (\<exists>ch \<in> set s. b \<le> digit_val ch) then None
      else Some (foldl (\<lambda>n ch. n * b + digit_val ch) 0 s))"

definition strip_0x :: "string \<Rightarrow> string" where
  "strip_0x s = (if take 2 s = ''0x'' then drop 2 s else s)"

definition test_env :: env where
  "test_env =
     \<lparr> xatou = (\<lambda>s. case read_num 10 s of Some n \<Rightarrow> (word_of_nat n, 0) | None \<Rightarrow> (0, 1)),
       strtol = (\<lambda>s b. case read_num b (if b = 16 then strip_0x s else s) of
                         Some n \<Rightarrow> int n | None \<Rightarrow> 0),
       rpi_gpio_check = (\<lambda>n. 2 \<le> n \<and> n \<le> 27),
       baud = (\<lambda>s. case read_num 10 s of Some n \<Rightarrow> n | None \<Rightarrow> 0),
       B9600 = 9600,
       G3PLC_INVALID = 1,
       G3PLC_NOACK = 2 \<rparr>"

section \<open>The driver's send operation\<close>

text \<open>
  Modelled from the spec: the send operation of the protocol engine (\<^verbatim>\<open>g3plc_send\<close>) is
  declared in \<^verbatim>\<open>g3plc.h\<close> but its body is not part of the sources. The specification says:
  with the no-ACK flag set, send returns a success status after exactly one transmission
  attempt and never enters the retry path; with the flag unset it blocks until an
  acknowledgment is received or the retransmission budget is exhausted, and with a limit of
  R and no acknowledgment ever it performs exactly R attempts before it reports retry
  exhaustion; it reports the number of attempts performed. \<open>acked n\<close> tells whether the
  link acknowledges the \<open>n\<close>-th attempt.
\<close>

datatype send_status = SEND_SUCCESS | SEND_RETRY_EXHAUSTED

record send_report =
  status :: send_status
  attempts :: nat
  ack_waits :: nat

text \<open>
  Modelled from the spec: the retry path of the absent send operation. After \<open>n\<close> attempts
  without acknowledgment and with \<open>k\<close> attempts left, it transmits, waits for the
  acknowledgment, and stops at the first attempt that is acknowledged or when the budget is
  used up.
\<close>

fun retry_path :: "(nat \<Rightarrow> bool) \<Rightarrow> nat \<Rightarrow> nat \<Rightarrow> send_report" where
  "retry_path acked n 0 = \<lparr> status = SEND_RETRY_EXHAUSTED, attempts = n, ack_waits = n \<rparr>"
| "retry_path acked n (Suc k) =
     (if acked (Suc n) then \<lparr> status = SEND_SUCCESS, attempts = Suc n, ack_waits = Suc n \<rparr>
      else retry_path acked (Suc n) k)"

text \<open>
  Modelled from the spec: the absent send operation itself, given whether the no-ACK flag is
  set and the retransmission limit.
\<close>

definition g3plc_send_spec :: "bool \<Rightarrow> nat \<Rightarrow> (nat \<Rightarrow> bool) \<Rightarrow> send_report" where
  "g3plc_send_spec noack R acked =
     (if noack then \<lparr> status = SEND_SUCCESS, attempts = 1, ack_waits = 0 \<rparr>
      else retry_path acked 0 R)"

text \<open>
  Modelled from the spec: the absent send operation under the configuration that \<^verbatim>\<open>main\<close>
  built (the flag bit \<^verbatim>\<open>G3PLC_NOACK\<close> and the field \<^verbatim>\<open>retrans\<close>).
\<close>

definition driver_send :: "env \<Rightarrow> hybrid_config \<Rightarrow> (nat \<Rightarrow> bool) \<Rightarrow> send_report" where
  "driver_send E g acked =
     g3plc_send_spec (flags g AND G3PLC_NOACK E \<noteq> 0) (unat (retrans g)) acked"

section \<open>Reading a run\<close>

fun is_hybrid_init :: "event \<Rightarrow> bool" where
  "is_hybrid_init (Ev_hybrid_init g r) = True"
| "is_hybrid_init _ = False"

fun is_mode_init :: "event \<Rightarrow> bool" where
  "is_mode_init Ev_mode_init = True"
| "is_mode_init _ = False"

fun is_serial_init :: "event \<Rightarrow> bool" where
  "is_serial_init (Ev_serial_init d b) = True"
| "is_serial_init _ = False"

fun is_create :: "event \<Rightarrow> bool" where
  "is_create (Ev_create t r) = True"
| "is_create _ = False"

fun is_failed_create :: "event \<Rightarrow> bool" where
  "is_failed_create (Ev_create t r) = (r \<noteq> 0)"
| "is_failed_create _ = False"

fun is_start :: "event \<Rightarrow> bool" where
  "is_start (Ev_start evs) = True"
| "is_start _ = False"

fun is_destroy :: "event \<Rightarrow> bool" where
  "is_destroy (Ev_destroy evs) = True"
| "is_destroy _ = False"

fun is_errx :: "event \<Rightarrow> bool" where
  "is_errx (Ev_errx m) = True"
| "is_errx _ = False"

fun is_exit :: "event \<Rightarrow> bool" where
  "is_exit (Ev_exit x) = True"
| "is_exit _ = False"

fun is_send :: "mode_event \<Rightarrow> bool" where
  "is_send (G3plc_send d p n) = True"
| "is_send _ = False"

text \<open>The events of option parsing, and those of the whole sequential set-up.\<close>

fun parse_event :: "event \<Rightarrow> bool" where
  "parse_event (Ev_parse_option c) = True"
| "parse_event Ev_version = True"
| "parse_event Ev_help = True"
| "parse_event (Ev_errx m) = True"
| "parse_event (Ev_exit x) = True"
| "parse_event _ = False"

fun setup_event :: "event \<Rightarrow> bool" where
  "setup_event Ev_summary = True"
| "setup_event (Ev_serial_init d b) = True"
| "setup_event (Ev_printf m) = True"
| "setup_event Ev_gpio_init = True"
| "setup_event (Ev_gpio_set_mode n) = True"
| "setup_event Ev_mode_init = True"
| "setup_event (Ev_parse_option c) = True"
| "setup_event _ = False"

text \<open>
  \<open>preceded_by P Q tr\<close>: no event that satisfies \<open>Q\<close> occurs in \<open>tr\<close> before the first
  event that satisfies \<open>P\<close>.
\<close>

fun preceded_by :: "('a \<Rightarrow> bool) \<Rightarrow> ('a \<Rightarrow> bool) \<Rightarrow> 'a list \<Rightarrow> bool" where
  "preceded_by P Q [] = True"
| "preceded_by P Q (x # xs) = (P x \<or> (\<not> Q x \<and> preceded_by P Q xs))"

fun rank :: "main_pc \<Rightarrow> nat" where
  "rank At_setup = 0"
| "rank At_block_signals = 1"
| "rank At_hybrid_init = 2"
| "rank At_io_block_signals = 3"
| "rank At_create_output = 4"
| "rank At_create_input = 5"
| "rank At_check_err = 6"
| "rank At_join = 7"
| "rank At_destroy = 8"
| "rank At_EXIT = 9"

text \<open>
  A thread exists from its creation until it returns. A thread can be handed \<^verbatim>\<open>SIGALRM\<close>
  asynchronously only while it exists and does not block the signal.
\<close>

fun thread_exists :: "'m proc \<Rightarrow> thread \<Rightarrow> bool" where
  "thread_exists s Main_thread = True"
| "thread_exists s Output_thread = (output_thread s = Created)"
| "thread_exists s Input_thread = (input_thread s = Created \<or> input_thread s = In_read_loop)"

definition can_receive_sigalrm :: "'m proc \<Rightarrow> thread \<Rightarrow> bool" where
  "can_receive_sigalrm s t \<longleftrightarrow> thread_exists s t \<and> \<not> sigalrm_blocked s t"

definition io_spawned :: "'m proc \<Rightarrow> bool" where
  "io_spawned s \<longleftrightarrow> output_thread s \<noteq> Not_created \<or> input_thread s \<noteq> Not_created"

text \<open>The same schedule, with another status returned by the send operation.\<close>

fun with_send_status :: "int \<Rightarrow> action \<Rightarrow> action" where
  "with_send_status r (Output_step r') = Output_step r"
| "with_send_status r a = a"

text \<open>A reset pin is invalid when its number cannot be read or is refused by the GPIO check.\<close>

definition invalid_reset :: "env \<Rightarrow> string \<Rightarrow> bool" where
  "invalid_reset E a \<longleftrightarrow> snd (xatou E a) \<noteq> 0 \<or> \<not> rpi_gpio_check E (sint (fst (xatou E a)))"

text \<open>What the common options of \<^verbatim>\<open>main\<close> can change.\<close>

definition common_part ::
  "'m proc \<Rightarrow> struct_context \<times> hybrid_config \<times> nat \<times> string \<times> int \<times> int option" where
  "common_part s = (ctx s, hybrid s, speed s, speed_str s, exit_status s, exited s)"

subsection \<open>Invariants of a run\<close>

text \<open>How the position of the main thread, the threads and the signal masks go together.\<close>

definition ctl_inv :: "'m proc \<Rightarrow> bool" where
  "ctl_inv s \<longleftrightarrow>
     (rank (main_pc s) = 0 \<longrightarrow> exited s \<noteq> None) \<and>
     (rank (main_pc s) \<le> 4 \<longrightarrow> output_thread s = Not_created) \<and>
     (rank (main_pc s) \<le> 5 \<longrightarrow> input_thread s = Not_created) \<and>
     (2 \<le> rank (main_pc s) \<longrightarrow> sigalrm_blocked s Main_thread) \<and>
     (output_thread s \<noteq> Not_created \<longrightarrow> sigalrm_blocked s Output_thread) \<and>
     (input_thread s \<noteq> Not_created \<longrightarrow> sigalrm_blocked s Input_thread) \<and>
     (rank (main_pc s) = 5 \<longrightarrow> (err s = 0 \<longleftrightarrow> output_thread s \<noteq> Not_created)) \<and>
     (rank (main_pc s) = 6 \<longrightarrow>
        (err s = 0 \<longleftrightarrow> output_thread s \<noteq> Not_created \<and> input_thread s \<noteq> Not_created)) \<and>
     (7 \<le> rank (main_pc s) \<longrightarrow>
        output_thread s \<noteq> Not_created \<and> input_thread s \<noteq> Not_created) \<and>
     (8 \<le> rank (main_pc s) \<longrightarrow> output_thread s = Returned) \<and>
     (1 \<le> rank (main_pc s) \<longrightarrow> exit_status s = EXIT_SUCCESS) \<and>
     output_thread s \<noteq> In_read_loop"

definition init_inv :: "'m proc \<Rightarrow> bool" where
  "init_inv s \<longleftrightarrow>
     (rank (main_pc s) \<le> 1 \<or> (rank (main_pc s) = 2 \<and> exited s = None)
        \<longrightarrow> \<not> list_ex is_hybrid_init (trace s)) \<and>
     length (filter is_hybrid_init (trace s)) \<le> 1 \<and>
     preceded_by is_mode_init is_hybrid_init (trace s) \<and>
     (1 \<le> rank (main_pc s) \<longrightarrow> list_ex is_mode_init (trace s)) \<and>
     (\<forall>g r. Ev_hybrid_init g r \<in> set (trace s) \<longrightarrow> g = hybrid s)"

definition destroy_inv :: "'m proc \<Rightarrow> bool" where
  "destroy_inv s \<longleftrightarrow>
     (rank (main_pc s) \<le> 8 \<longrightarrow> \<not> list_ex is_destroy (trace s)) \<and>
     (rank (main_pc s) = 9 \<longrightarrow> length (filter is_destroy (trace s)) = 1) \<and>
     preceded_by (\<lambda>e. e = Ev_join Output_thread) is_destroy (trace s) \<and>
     Ev_join Input_thread \<notin> set (trace s) \<and>
     (Ev_join Output_thread \<in> set (trace s) \<longleftrightarrow> 8 \<le> rank (main_pc s))"

definition create_inv :: "'m proc \<Rightarrow> bool" where
  "create_inv s \<longleftrightarrow>
     (rank (main_pc s) \<le> 4 \<longrightarrow> \<not> list_ex is_create (trace s)) \<and>
     (rank (main_pc s) \<le> 5 \<longrightarrow> (\<forall>r. Ev_create Input_thread r \<notin> set (trace s))) \<and>
     (2 \<le> rank (main_pc s) \<longrightarrow> Ev_block_signals Main_thread 0 \<in> set (trace s)) \<and>
     preceded_by (\<lambda>e. e = Ev_block_signals Main_thread 0) is_create (trace s) \<and>
     (5 \<le> rank (main_pc s) \<longrightarrow> (\<exists>r. Ev_create Output_thread r \<in> set (trace s))) \<and>
     (6 \<le> rank (main_pc s) \<longrightarrow> (\<exists>r. Ev_create Input_thread r \<in> set (trace s))) \<and>
     (\<forall>r. Ev_create Output_thread r \<in> set (trace s)
        \<longrightarrow> (r = 0 \<longleftrightarrow> output_thread s \<noteq> Not_created)) \<and>
     (\<forall>r. Ev_create Input_thread r \<in> set (trace s)
        \<longrightarrow> (r = 0 \<longleftrightarrow> input_thread s \<noteq> Not_created)) \<and>
     (\<forall>r. Ev_create Main_thread r \<notin> set (trace s))"

definition exit_inv :: "'m proc \<Rightarrow> bool" where
  "exit_inv s \<longleftrightarrow>
     (\<forall>x. exited s = Some x \<and> 1 \<le> rank (main_pc s) \<and> \<not> list_ex is_errx (trace s)
        \<longrightarrow> x = EXIT_SUCCESS \<and> main_pc s = At_EXIT) \<and>
     (\<forall>x. exited s = Some x \<and> 1 \<le> rank (main_pc s) \<and> rank (main_pc s) \<le> 8
        \<longrightarrow> x = EXIT_FAILURE) \<and>
     (exited s = None \<longrightarrow> \<not> list_ex is_errx (trace s))"

text \<open>Once the set-up is over, the process does not call \<^verbatim>\<open>exit\<close> before the mode's destroy.\<close>

definition exit_order_inv :: "'m proc \<Rightarrow> bool" where
  "exit_order_inv s \<longleftrightarrow>
     (1 \<le> rank (main_pc s) \<longrightarrow> preceded_by is_destroy is_exit (trace s))"

definition start_inv :: "'m iface_mode \<Rightarrow> 'm proc \<Rightarrow> bool" where
  "start_inv M s \<longleftrightarrow>
     (\<forall>evs. Ev_start evs \<in> set (trace s) \<longrightarrow> (\<exists>r. evs = start M (ctx s) (statics s) r)) \<and>
     length (filter is_start (trace s)) \<le> 1 \<and>
     (list_ex is_start (trace s) \<longleftrightarrow> output_thread s = Returned)"

text \<open>Two states that differ in nothing but what has been logged.\<close>

definition same_but_trace :: "'m proc \<Rightarrow> 'm proc \<Rightarrow> bool" where
  "same_but_trace s s' \<longleftrightarrow>
     ctx s = ctx s' \<and> hybrid s = hybrid s' \<and> statics s = statics s' \<and> speed s = speed s' \<and>
     speed_str s = speed_str s' \<and> device s = device s' \<and> exit_status s = exit_status s' \<and>
     err s = err s' \<and> main_pc s = main_pc s' \<and> output_thread s = output_thread s' \<and>
     input_thread s = input_thread s' \<and> sigalrm_blocked s = sigalrm_blocked s' \<and>
     exited s = exited s'"

section \<open>Properties\<close>

subsection \<open>Lists of events\<close>

lemma preceded_by_append:
  "preceded_by P Q (xs @ ys) \<longleftrightarrow>
     preceded_by P Q xs \<and> (list_ex P xs \<or> preceded_by P Q ys)"
  by (induction xs) auto

lemma preceded_by_none: "\<not> list_ex Q xs \<Longrightarrow> preceded_by P Q xs"
  by (induction xs) auto

lemma filter_none: "\<not> list_ex P xs \<Longrightarrow> filter P xs = []"
  by (induction xs) auto

subsection \<open>The common options\<close>

lemma common_option_machine:
  "main_pc (common_option E c a s) = main_pc s \<and>
   output_thread (common_option E c a s) = output_thread s \<and>
   input_thread (common_option E c a s) = input_thread s \<and>
   sigalrm_blocked (common_option E c a s) = sigalrm_blocked s \<and>
   statics (common_option E c a s) = statics s"
  unfolding common_option_def
  by (cases "switch_label c"; cases "xatou E a")
     (simp_all add: errx_def goto_EXIT_def log_def Let_def)

lemma common_option_trace:
  "\<exists>tl. trace (common_option E c a s) = trace s @ tl \<and> list_all parse_event tl"
  unfolding common_option_def
  by (cases "switch_label c"; cases "xatou E a")
     (simp_all add: errx_def goto_EXIT_def log_def Let_def)

lemma common_option_quiet:
  "(exited s = None \<longrightarrow> list_all setup_event (trace s)) \<Longrightarrow>
   (exited (common_option E c a s) = None \<longrightarrow> list_all setup_event (trace (common_option E c a s)))"
  unfolding common_option_def
  by (cases "switch_label c"; cases "xatou E a")
     (simp_all add: errx_def goto_EXIT_def log_def Let_def)

subsection \<open>The option loop\<close>

lemma getopt_loop_rule:
  assumes "P s"
    and "\<And>s c st'. P s \<Longrightarrow> P (log (Ev_parse_option c) (s\<lparr>statics := st'\<rparr>))"
    and "\<And>s c a. P s \<Longrightarrow> P (common_option E c a s)"
  shows "P (getopt_loop M E opts s)"
  using assms(1)
proof (induction opts arbitrary: s)
  case Nil
  then show ?case by simp
next
  case (Cons o1 opts)
  obtain c a where o1: "o1 = (c, a)" by (cases o1)
  obtain r st' where p: "parse_option M (ctx s) c a (statics s) = (r, st')"
    by (cases "parse_option M (ctx s) c a (statics s)")
  let ?s1 = "log (Ev_parse_option c) (s\<lparr>statics := st'\<rparr>)"
  have s1: "P ?s1" using Cons.prems by (rule assms(2))
  have s2: "P (common_option E c a ?s1)" using s1 by (rule assms(3))
  have "getopt_loop M E (o1 # opts) s = getopt_loop M E opts ?s1 \<or>
        getopt_loop M E (o1 # opts) s = common_option E c a ?s1 \<or>
        getopt_loop M E (o1 # opts) s = getopt_loop M E opts (common_option E c a ?s1)"
    by (simp add: o1 p Let_def)
  then show ?case
    using Cons.IH [OF s1] Cons.IH [OF s2] s2 by metis
qed

lemma getopt_loop_machine:
  "main_pc (getopt_loop M E opts s) = main_pc s \<and>
   output_thread (getopt_loop M E opts s) = output_thread s \<and>
   input_thread (getopt_loop M E opts s) = input_thread s \<and>
   sigalrm_blocked (getopt_loop M E opts s) = sigalrm_blocked s"
proof (rule getopt_loop_rule [where P = "\<lambda>s'. main_pc s' = main_pc s \<and>
   output_thread s' = output_thread s \<and> input_thread s' = input_thread s \<and>
   sigalrm_blocked s' = sigalrm_blocked s"])
  show "main_pc s = main_pc s \<and> output_thread s = output_thread s \<and>
    input_thread s = input_thread s \<and> sigalrm_blocked s = sigalrm_blocked s" by simp
next
  fix s' :: "'a proc" and c st'
  assume "main_pc s' = main_pc s \<and> output_thread s' = output_thread s \<and>
    input_thread s' = input_thread s \<and> sigalrm_blocked s' = sigalrm_blocked s"
  then show "main_pc (log (Ev_parse_option c) (s'\<lparr>statics := st'\<rparr>)) = main_pc s \<and>
    output_thread (log (Ev_parse_option c) (s'\<lparr>statics := st'\<rparr>)) = output_thread s \<and>
    input_thread (log (Ev_parse_option c) (s'\<lparr>statics := st'\<rparr>)) = input_thread s \<and>
    sigalrm_blocked (log (Ev_parse_option c) (s'\<lparr>statics := st'\<rparr>)) = sigalrm_blocked s"
    by (simp add: log_def)
next
  fix s' :: "'a proc" and c a
  assume "main_pc s' = main_pc s \<and> output_thread s' = output_thread s \<and>
    input_thread s' = input_thread s \<and> sigalrm_blocked s' = sigalrm_blocked s"
  then show "main_pc (common_option E c a s') = main_pc s \<and>
    output_thread (common_option E c a s') = output_thread s \<and>
    input_thread (common_option E c a s') = input_thread s \<and>
    sigalrm_blocked (common_option E c a s') = sigalrm_blocked s"
    by (simp add: common_option_machine)
qed

lemma getopt_loop_trace:
  "\<exists>tl. trace (getopt_loop M E opts s) = trace s @ tl \<and> list_all parse_event tl"
proof (rule getopt_loop_rule [where P = "\<lambda>s'. \<exists>tl. trace s' = trace s @ tl \<and> list_all parse_event tl"])
  show "\<exists>tl. trace s = trace s @ tl \<and> list_all parse_event tl" by simp
next
  fix s' :: "'a proc" and c st'
  assume "\<exists>tl. trace s' = trace s @ tl \<and> list_all parse_event tl"
  then show "\<exists>tl. trace (log (Ev_parse_option c) (s'\<lparr>statics := st'\<rparr>)) = trace s @ tl \<and> list_all parse_event tl"
    by (auto simp: log_def)
next
  fix s' :: "'a proc" and c a
  assume "\<exists>tl. trace s' = trace s @ tl \<and> list_all parse_event tl"
  then obtain tl where tl: "trace s' = trace s @ tl" "list_all parse_event tl" by blast
  obtain tl' where tl': "trace (common_option E c a s') = trace s' @ tl'" "list_all parse_event tl'"
    using common_option_trace by blast
  have "trace (common_option E c a s') = trace s @ (tl @ tl')" using tl tl' by simp
  moreover have "list_all parse_event (tl @ tl')" using tl tl' by simp
  ultimately show "\<exists>tl. trace (common_option E c a s') = trace s @ tl \<and> list_all parse_event tl"
    by blast
qed

lemma getopt_loop_quiet:
  assumes "exited s = None \<longrightarrow> list_all setup_event (trace s)"
  shows "exited (getopt_loop M E opts s) = None
           \<longrightarrow> list_all setup_event (trace (getopt_loop M E opts s))"
proof (rule getopt_loop_rule [where P = "\<lambda>s'. exited s' = None \<longrightarrow> list_all setup_event (trace s')"])
  show "exited s = None \<longrightarrow> list_all setup_event (trace s)" by (rule assms)
next
  fix s' :: "'a proc" and c st'
  assume "exited s' = None \<longrightarrow> list_all setup_event (trace s')"
  then show "exited (log (Ev_parse_option c) (s'\<lparr>statics := st'\<rparr>)) = None
    \<longrightarrow> list_all setup_event (trace (log (Ev_parse_option c) (s'\<lparr>statics := st'\<rparr>)))"
    by (simp add: log_def)
next
  fix s' :: "'a proc" and c a
  assume "exited s' = None \<longrightarrow> list_all setup_event (trace s')"
  then show "exited (common_option E c a s') = None
    \<longrightarrow> list_all setup_event (trace (common_option E c a s'))"
    by (rule common_option_quiet)
qed

lemma getopt_loop_initial_trace:
  "list_all parse_event (trace (getopt_loop M E opts (initial_proc E st)))"
  using getopt_loop_trace [of M E opts "initial_proc E st"]
  by (auto simp: initial_proc_def)

subsection \<open>The set-up\<close>

lemmas setup_defs = main_setup_def Let_def goto_EXIT_def log_def initialize_driver_def
  configure_gpio_def

lemma main_setup_early:
  assumes "exited (main_setup M E st opts args) \<noteq> None"
  shows "main_pc (main_setup M E st opts args) = At_setup \<and>
         output_thread (main_setup M E st opts args) = Not_created \<and>
         input_thread (main_setup M E st opts args) = Not_created \<and>
         list_all parse_event (trace (main_setup M E st opts args))"
proof -
  let ?s = "getopt_loop M E opts (initial_proc E st)"
  have m: "main_pc ?s = At_setup" "output_thread ?s = Not_created" "input_thread ?s = Not_created"
    using getopt_loop_machine [of M E opts "initial_proc E st"] by (simp_all add: initial_proc_def)
  have t: "list_all parse_event (trace ?s)" by (rule getopt_loop_initial_trace)
  show ?thesis
  proof (cases "exited ?s \<noteq> None")
    case True
    then show ?thesis using m t by (simp add: main_setup_def)
  next
    case False
    with assms have "length args \<noteq> 2" by (auto simp: setup_defs split: if_splits)
    with False show ?thesis using m t by (simp add: setup_defs)
  qed
qed

lemma main_setup_ready:
  assumes "exited (main_setup M E st opts args) = None"
  shows "main_pc (main_setup M E st opts args) = At_block_signals \<and>
         output_thread (main_setup M E st opts args) = Not_created \<and>
         input_thread (main_setup M E st opts args) = Not_created \<and>
         exit_status (main_setup M E st opts args) = EXIT_SUCCESS \<and>
         list_all setup_event (trace (main_setup M E st opts args)) \<and>
         list_ex is_mode_init (trace (main_setup M E st opts args))"
proof -
  let ?s = "getopt_loop M E opts (initial_proc E st)"
  have m: "main_pc ?s = At_setup" "output_thread ?s = Not_created" "input_thread ?s = Not_created"
    using getopt_loop_machine [of M E opts "initial_proc E st"] by (simp_all add: initial_proc_def)
  have e: "exited ?s = None \<longrightarrow> list_all setup_event (trace ?s)"
    by (rule getopt_loop_quiet) (simp add: initial_proc_def)
  from assms have x: "exited ?s = None" "length args = 2"
    by (auto simp: setup_defs split: if_splits)
  with e have q: "list_all setup_event (trace ?s)" by simp
  show ?thesis using x m q by (simp add: setup_defs)
qed

lemma main_setup_ctx:
  "ctx (main_setup M E st opts args) = ctx (getopt_loop M E opts (initial_proc E st))"
  by (simp add: setup_defs)

lemma main_setup_statics:
  "statics (main_setup M E st opts args) = statics (getopt_loop M E opts (initial_proc E st))"
  by (simp add: setup_defs)

lemma main_setup_hybrid:
  "hybrid (main_setup M E st opts args) =
     (if exited (getopt_loop M E opts (initial_proc E st)) \<noteq> None \<or> length args \<noteq> 2
      then hybrid (getopt_loop M E opts (initial_proc E st))
      else init M (ctx (getopt_loop M E opts (initial_proc E st)))
             ((hybrid (getopt_loop M E opts (initial_proc E st)))
                \<lparr>mac_address := word_of_int (strtol E (args ! 0) 16)\<rparr>))"
  by (simp add: setup_defs)

subsection \<open>Steps of the threads\<close>

lemma run_threads_rule:
  assumes "P s" and "\<And>s a. P s \<Longrightarrow> P (step M s a)"
  shows "P (run_threads M sched s)"
  using assms(1) unfolding run_threads_def
  by (induction sched arbitrary: s) (simp_all add: assms(2))

lemma step_exited: "exited s \<noteq> None \<Longrightarrow> step M s a = s"
  by (simp add: step_def)

lemma run_threads_exited: "exited s \<noteq> None \<Longrightarrow> run_threads M sched s = s"
  unfolding run_threads_def
proof (induction sched)
  case Nil
  show ?case by (simp only: foldl_Nil)
next
  case (Cons a sched)
  show ?case
    by (simp only: foldl_Cons step_exited [OF Cons.prems] Cons.IH [OF Cons.prems])
qed

lemmas thread_defs = thread_block_signals_def pthread_create_def errx_def goto_EXIT_def log_def
  Let_def

lemma main_step_frame:
  "ctx (main_step M r s) = ctx s \<and> hybrid (main_step M r s) = hybrid s \<and>
   statics (main_step M r s) = statics s"
  unfolding main_step_def
  by (cases "main_pc s") (simp_all add: thread_defs)

lemma output_thread_func_frame:
  "ctx (output_thread_func M r s) = ctx s \<and> hybrid (output_thread_func M r s) = hybrid s \<and>
   statics (output_thread_func M r s) = statics s"
  unfolding output_thread_func_def
  by (cases "output_thread s") (simp_all add: log_def)

lemma input_thread_func_frame:
  "ctx (input_thread_func r s) = ctx s \<and> hybrid (input_thread_func r s) = hybrid s \<and>
   statics (input_thread_func r s) = statics s"
  unfolding input_thread_func_def
  by (cases "input_thread s") (simp_all add: thread_defs)

lemma step_frame:
  "ctx (step M s a) = ctx s \<and> hybrid (step M s a) = hybrid s \<and> statics (step M s a) = statics s"
  unfolding step_def
  by (cases a) (simp_all add: main_step_frame output_thread_func_frame input_thread_func_frame)

lemma run_threads_frame:
  "ctx (run_threads M sched s) = ctx s \<and> hybrid (run_threads M sched s) = hybrid s \<and>
   statics (run_threads M sched s) = statics s"
  by (rule run_threads_rule [where P = "\<lambda>s'. ctx s' = ctx s \<and> hybrid s' = hybrid s \<and>
        statics s' = statics s"]) (simp_all add: step_frame)

subsection \<open>Invariants\<close>

lemma ctl_inv_main_step: "ctl_inv s \<Longrightarrow> exited s = None \<Longrightarrow> ctl_inv (main_step M r s)"
  unfolding ctl_inv_def main_step_def
  by (cases "main_pc s") (simp_all add: thread_defs or_eq_0_iff)

lemma ctl_inv_output: "ctl_inv s \<Longrightarrow> ctl_inv (output_thread_func M r s)"
  unfolding ctl_inv_def output_thread_func_def
  by (cases "output_thread s") (auto simp: log_def)

lemma ctl_inv_input: "ctl_inv s \<Longrightarrow> ctl_inv (input_thread_func r s)"
  unfolding ctl_inv_def input_thread_func_def
  by (cases "input_thread s") (simp_all add: thread_defs)

lemma ctl_inv_step: "ctl_inv s \<Longrightarrow> ctl_inv (step M s a)"
  unfolding step_def
  by (cases a) (simp_all add: ctl_inv_main_step ctl_inv_output ctl_inv_input)

lemma init_inv_main_step:
  "init_inv s \<Longrightarrow> exited s = None \<Longrightarrow> init_inv (main_step M r s)"
  unfolding init_inv_def main_step_def
  by (cases "main_pc s") (auto simp: thread_defs preceded_by_append filter_none)

lemma init_inv_output: "init_inv s \<Longrightarrow> init_inv (output_thread_func M r s)"
  unfolding init_inv_def output_thread_func_def
  by (cases "output_thread s") (auto simp: log_def preceded_by_append)

lemma init_inv_input: "init_inv s \<Longrightarrow> init_inv (input_thread_func r s)"
  unfolding init_inv_def input_thread_func_def
  by (cases "input_thread s") (auto simp: thread_defs preceded_by_append)

lemma init_inv_step: "init_inv s \<Longrightarrow> init_inv (step M s a)"
  unfolding step_def
  by (cases a) (simp_all add: init_inv_main_step init_inv_output init_inv_input)

lemma not_list_ex_mem: "\<not> list_ex P xs \<Longrightarrow> x \<in> set xs \<Longrightarrow> \<not> P x"
  by (auto simp: list_ex_iff)

lemma list_ex_eq: "list_ex (\<lambda>e. e = x) xs \<longleftrightarrow> x \<in> set xs"
  by (auto simp: list_ex_iff)

lemma destroy_inv_main_step:
  "destroy_inv s \<Longrightarrow> exited s = None \<Longrightarrow> destroy_inv (main_step M r s)"
  unfolding destroy_inv_def main_step_def
  by (cases "main_pc s") (auto simp: thread_defs preceded_by_append filter_none list_ex_eq)

lemma destroy_inv_output: "destroy_inv s \<Longrightarrow> destroy_inv (output_thread_func M r s)"
  unfolding destroy_inv_def output_thread_func_def
  by (cases "output_thread s") (auto simp: log_def preceded_by_append)

lemma destroy_inv_input: "destroy_inv s \<Longrightarrow> destroy_inv (input_thread_func r s)"
  unfolding destroy_inv_def input_thread_func_def
  by (cases "input_thread s") (auto simp: thread_defs preceded_by_append)

lemma destroy_inv_step: "destroy_inv s \<Longrightarrow> destroy_inv (step M s a)"
  unfolding step_def
  by (cases a) (simp_all add: destroy_inv_main_step destroy_inv_output destroy_inv_input)

lemma create_inv_main_step:
  "ctl_inv s \<Longrightarrow> create_inv s \<Longrightarrow> exited s = None \<Longrightarrow> create_inv (main_step M r s)"
  unfolding create_inv_def ctl_inv_def main_step_def
  by (cases "main_pc s")
     (auto simp: thread_defs preceded_by_append list_ex_eq dest: not_list_ex_mem)

lemma create_inv_output: "create_inv s \<Longrightarrow> create_inv (output_thread_func M r s)"
  unfolding create_inv_def output_thread_func_def
  by (cases "output_thread s") (auto simp: log_def preceded_by_append)

lemma create_inv_input: "create_inv s \<Longrightarrow> create_inv (input_thread_func r s)"
  unfolding create_inv_def input_thread_func_def
  by (cases "input_thread s") (auto simp: thread_defs preceded_by_append)

lemma create_inv_step: "ctl_inv s \<Longrightarrow> create_inv s \<Longrightarrow> create_inv (step M s a)"
  unfolding step_def
  by (cases a) (simp_all add: create_inv_main_step create_inv_output create_inv_input)

lemma exit_inv_main_step:
  "ctl_inv s \<Longrightarrow> exit_inv s \<Longrightarrow> exited s = None \<Longrightarrow> exit_inv (main_step M r s)"
  unfolding exit_inv_def ctl_inv_def main_step_def
  by (cases "main_pc s") (auto simp: thread_defs)

lemma exit_inv_output:
  "exit_inv s \<Longrightarrow> exited s = None \<Longrightarrow> exit_inv (output_thread_func M r s)"
  unfolding exit_inv_def output_thread_func_def
  by (cases "output_thread s") (auto simp: log_def)

lemma exit_inv_input:
  "exit_inv s \<Longrightarrow> exited s = None \<Longrightarrow> exit_inv (input_thread_func r s)"
  unfolding exit_inv_def input_thread_func_def
  by (cases "input_thread s") (auto simp: thread_defs)

lemma exit_inv_step: "ctl_inv s \<Longrightarrow> exit_inv s \<Longrightarrow> exit_inv (step M s a)"
  unfolding step_def
  by (cases a) (simp_all add: exit_inv_main_step exit_inv_output exit_inv_input)

lemma start_inv_main_step:
  "ctl_inv s \<Longrightarrow> start_inv M s \<Longrightarrow> exited s = None \<Longrightarrow> start_inv M (main_step M r s)"
  unfolding start_inv_def ctl_inv_def main_step_def
  by (cases "main_pc s") (auto simp: thread_defs)

lemma start_inv_output:
  "ctl_inv s \<Longrightarrow> start_inv M s \<Longrightarrow> start_inv M (output_thread_func M r s)"
  unfolding start_inv_def ctl_inv_def output_thread_func_def
  by (cases "output_thread s") (auto simp: log_def filter_none)

lemma start_inv_input: "start_inv M s \<Longrightarrow> start_inv M (input_thread_func r s)"
  unfolding start_inv_def input_thread_func_def
  by (cases "input_thread s") (auto simp: thread_defs)

lemma start_inv_step: "ctl_inv s \<Longrightarrow> start_inv M s \<Longrightarrow> start_inv M (step M s a)"
  unfolding step_def
  by (cases a) (simp_all add: start_inv_main_step start_inv_output start_inv_input)

lemma same_but_trace_main_step:
  "same_but_trace s s' \<Longrightarrow> same_but_trace (main_step M r s) (main_step M r s')"
  unfolding same_but_trace_def main_step_def
  by (cases "main_pc s'") (simp_all add: thread_defs)

lemma same_but_trace_output:
  "same_but_trace s s' \<Longrightarrow>
   same_but_trace (output_thread_func M r s) (output_thread_func M r' s')"
  unfolding same_but_trace_def output_thread_func_def
  by (cases "output_thread s'") (simp_all add: log_def)

lemma same_but_trace_input:
  "same_but_trace s s' \<Longrightarrow> same_but_trace (input_thread_func r s) (input_thread_func r s')"
  unfolding same_but_trace_def input_thread_func_def
  by (cases "input_thread s'") (simp_all add: thread_defs)

lemma same_but_trace_step:
  assumes "same_but_trace s s'"
  shows "same_but_trace (step M s a) (step M s' (with_send_status r a))"
proof -
  from assms have e: "exited s = exited s'" by (simp add: same_but_trace_def)
  show ?thesis
    using assms e unfolding step_def
    by (cases a)
       (simp_all add: same_but_trace_main_step same_but_trace_output same_but_trace_input)
qed

lemma same_but_trace_run:
  "same_but_trace s s' \<Longrightarrow>
   same_but_trace (run_threads M sched s) (run_threads M (map (with_send_status r) sched) s')"
  unfolding run_threads_def
  by (induction sched arbitrary: s s') (simp_all add: same_but_trace_step)

subsection \<open>The invariants hold after the set-up\<close>

lemma early_event_not:
  "setup_event e \<or> parse_event e \<Longrightarrow>
     \<not> is_hybrid_init e \<and> \<not> is_create e \<and> \<not> is_start e \<and> \<not> is_destroy e \<and>
     e \<noteq> Ev_join t \<and> e \<noteq> Ev_block_signals t r \<and> e \<noteq> Ev_start evs"
  by (cases e) simp_all

lemma early_trace_not:
  assumes "list_all setup_event tr \<or> list_all parse_event tr"
  shows "\<not> list_ex is_hybrid_init tr \<and> \<not> list_ex is_create tr \<and> \<not> list_ex is_start tr \<and>
         \<not> list_ex is_destroy tr \<and> Ev_join t \<notin> set tr \<and> Ev_block_signals t r \<notin> set tr \<and>
         Ev_start evs \<notin> set tr \<and> Ev_create t r \<notin> set tr \<and> Ev_hybrid_init g r \<notin> set tr"
proof -
  have a: "\<forall>e \<in> set tr. setup_event e \<or> parse_event e"
    using assms by (auto simp: list_all_iff)
  have b: "\<And>e. e \<in> set tr \<Longrightarrow> \<not> is_hybrid_init e \<and> \<not> is_create e \<and> \<not> is_start e \<and>
        \<not> is_destroy e \<and> e \<noteq> Ev_join t \<and> e \<noteq> Ev_block_signals t r \<and> e \<noteq> Ev_start evs"
    using a early_event_not by blast
  have c: "Ev_create t r \<notin> set tr" "Ev_hybrid_init g r \<notin> set tr"
    using b by fastforce+
  show ?thesis using b c unfolding list_ex_iff by blast
qed

lemma setup_event_not_errx: "list_all setup_event tr \<Longrightarrow> \<not> list_ex is_errx tr"
proof -
  have "\<And>e. setup_event e \<Longrightarrow> \<not> is_errx e"
  proof -
    fix e show "setup_event e \<Longrightarrow> \<not> is_errx e" by (cases e) simp_all
  qed
  then show "list_all setup_event tr \<Longrightarrow> \<not> list_ex is_errx tr"
    by (auto simp: list_all_iff list_ex_iff)
qed

lemma main_setup_inv:
  "ctl_inv (main_setup M E st opts args) \<and> init_inv (main_setup M E st opts args) \<and>
   destroy_inv (main_setup M E st opts args) \<and> create_inv (main_setup M E st opts args) \<and>
   exit_inv (main_setup M E st opts args) \<and> start_inv M (main_setup M E st opts args)"
proof (cases "exited (main_setup M E st opts args) = None")
  case True
  let ?s = "main_setup M E st opts args"
  from main_setup_ready [OF True]
  have f: "main_pc ?s = At_block_signals" "output_thread ?s = Not_created"
    "input_thread ?s = Not_created" "exit_status ?s = EXIT_SUCCESS"
    "list_all setup_event (trace ?s)" "list_ex is_mode_init (trace ?s)"
    by simp_all
  from f(5) have n: "\<And>t r evs g. \<not> list_ex is_hybrid_init (trace ?s) \<and> \<not> list_ex is_create (trace ?s) \<and>
      \<not> list_ex is_start (trace ?s) \<and> \<not> list_ex is_destroy (trace ?s) \<and> Ev_join t \<notin> set (trace ?s) \<and>
      Ev_block_signals t r \<notin> set (trace ?s) \<and> Ev_start evs \<notin> set (trace ?s) \<and>
      Ev_create t r \<notin> set (trace ?s) \<and> Ev_hybrid_init g r \<notin> set (trace ?s)"
    using early_trace_not by blast
  have x: "\<not> list_ex is_errx (trace ?s)" using f(5) by (rule setup_event_not_errx)
  have 1: "ctl_inv ?s" using True f by (simp add: ctl_inv_def)
  have 2: "init_inv ?s" using True f n by (simp add: init_inv_def filter_none preceded_by_none)
  have 3: "destroy_inv ?s" using True f n by (simp add: destroy_inv_def filter_none preceded_by_none)
  have 4: "create_inv ?s" using True f n by (simp add: create_inv_def filter_none preceded_by_none)
  have 5: "exit_inv ?s" using True f x by (simp add: exit_inv_def)
  have 6: "start_inv M ?s" using True f n by (simp add: start_inv_def filter_none)
  from 1 2 3 4 5 6 show ?thesis by simp
next
  case False
  let ?s = "main_setup M E st opts args"
  from main_setup_early [OF False]
  have f: "main_pc ?s = At_setup" "output_thread ?s = Not_created"
    "input_thread ?s = Not_created" "list_all parse_event (trace ?s)"
    by simp_all
  from f(4) have n: "\<And>t r evs g. \<not> list_ex is_hybrid_init (trace ?s) \<and> \<not> list_ex is_create (trace ?s) \<and>
      \<not> list_ex is_start (trace ?s) \<and> \<not> list_ex is_destroy (trace ?s) \<and> Ev_join t \<notin> set (trace ?s) \<and>
      Ev_block_signals t r \<notin> set (trace ?s) \<and> Ev_start evs \<notin> set (trace ?s) \<and>
      Ev_create t r \<notin> set (trace ?s) \<and> Ev_hybrid_init g r \<notin> set (trace ?s)"
    using early_trace_not by blast
  have 1: "ctl_inv ?s" using False f by (simp add: ctl_inv_def)
  have 2: "init_inv ?s" using False f n by (simp add: init_inv_def filter_none preceded_by_none)
  have 3: "destroy_inv ?s" using False f n by (simp add: destroy_inv_def filter_none preceded_by_none)
  have 4: "create_inv ?s" using False f n by (simp add: create_inv_def filter_none preceded_by_none)
  have 5: "exit_inv ?s" using False f by (auto simp: exit_inv_def)
  have 6: "start_inv M ?s" using False f n by (simp add: start_inv_def filter_none)
  from 1 2 3 4 5 6 show ?thesis by simp
qed

lemma main_inv:
  "ctl_inv (main M E st opts args sched) \<and> init_inv (main M E st opts args sched) \<and>
   destroy_inv (main M E st opts args sched) \<and> create_inv (main M E st opts args sched) \<and>
   exit_inv (main M E st opts args sched) \<and> start_inv M (main M E st opts args sched)"
  unfolding main_def
  by (rule run_threads_rule [where P = "\<lambda>s. ctl_inv s \<and> init_inv s \<and> destroy_inv s \<and>
        create_inv s \<and> exit_inv s \<and> start_inv M s"])
     (simp_all add: main_setup_inv ctl_inv_step init_inv_step destroy_inv_step create_inv_step
        exit_inv_step start_inv_step)

section \<open>The context after set-up\<close>

text \<open>
  C9. The context is what option parsing made of it: at the end of every run, under every
  schedule of the threads, it is the context the option loop left, and no step of the main
  thread (driver initialisation, thread creation, the mode's destroy), of the output thread
  (the mode's start) or of the input thread changes it.
\<close>

theorem C9_context_immutable_after_setup:
  "ctx (main M E st opts args sched) = ctx (getopt_loop M E opts (initial_proc E st)) \<and>
   ctx (step M s a) = ctx s"
  by (simp add: main_def run_threads_frame main_setup_ctx step_frame)

section \<open>Defaults of the configuration\<close>

lemma switch_label_iff:
  "(switch_label c = Case_r \<longleftrightarrow> c = opt_char CHR ''r'') \<and>
   (switch_label c = Case_t \<longleftrightarrow> c = opt_char CHR ''t'') \<and>
   (switch_label c = Case_a \<longleftrightarrow> c = opt_char CHR ''a'') \<and>
   (switch_label c = Case_i \<longleftrightarrow> c = opt_char CHR ''i'') \<and>
   (switch_label c = Case_d \<longleftrightarrow> c = opt_char CHR ''d'') \<and>
   (switch_label c = Case_OPT_RESET \<longleftrightarrow> c = OPT_RESET)"
  by (simp add: switch_label_def opt_char_def OPT_RESET_def)

lemma common_option_defaults:
  "(c \<noteq> opt_char CHR ''r'' \<longrightarrow> retrans (hybrid (common_option E c a s)) = retrans (hybrid s)) \<and>
   (c \<noteq> opt_char CHR ''t'' \<longrightarrow> timeout (hybrid (common_option E c a s)) = timeout (hybrid s)) \<and>
   (c \<noteq> opt_char CHR ''a'' \<and> c \<noteq> opt_char CHR ''i''
      \<longrightarrow> flags (hybrid (common_option E c a s)) = flags (hybrid s)) \<and>
   (c \<noteq> opt_char CHR ''d'' \<longrightarrow> dst_mac (ctx (common_option E c a s)) = dst_mac (ctx s))"
  using switch_label_iff [of c] unfolding common_option_def
  by (cases "switch_label c"; cases "xatou E a") (simp_all add: errx_def goto_EXIT_def log_def Let_def)

text \<open>A field that no option of the list can write is left as it was by the loop.\<close>

lemma getopt_loop_keeps:
  assumes mode: "\<And>s c st'. f (log (Ev_parse_option c) (s\<lparr>statics := st'\<rparr>)) = f s"
    and common: "\<And>s c a. c \<notin> C \<Longrightarrow> f (common_option E c a s) = f s"
    and opts: "fst ` set opts \<inter> C = {}"
  shows "f (getopt_loop M E opts s) = f s"
  using opts
proof (induction opts arbitrary: s)
  case Nil
  show ?case by simp
next
  case (Cons o1 opts)
  obtain c a where o1: "o1 = (c, a)" by (cases o1)
  obtain r st' where p: "parse_option M (ctx s) c a (statics s) = (r, st')"
    by (cases "parse_option M (ctx s) c a (statics s)")
  let ?s1 = "log (Ev_parse_option c) (s\<lparr>statics := st'\<rparr>)"
  from Cons.prems o1 have c: "c \<notin> C" and rest: "fst ` set opts \<inter> C = {}" by auto
  have 1: "f ?s1 = f s" by (rule mode)
  have 2: "f (common_option E c a ?s1) = f s" using common [OF c] 1 by simp
  have "getopt_loop M E (o1 # opts) s = getopt_loop M E opts ?s1 \<or>
        getopt_loop M E (o1 # opts) s = common_option E c a ?s1 \<or>
        getopt_loop M E (o1 # opts) s = getopt_loop M E opts (common_option E c a ?s1)"
    by (simp add: o1 p Let_def)
  then show ?case
    using Cons.IH [OF rest, of ?s1] Cons.IH [OF rest, of "common_option E c a ?s1"] 1 2
    by metis
qed

lemma getopt_loop_retrans:
  "opt_char CHR ''r'' \<notin> fst ` set opts \<Longrightarrow>
   retrans (hybrid (getopt_loop M E opts s)) = retrans (hybrid s)"
  by (rule getopt_loop_keeps [where C = "{opt_char CHR ''r''}" and f = "\<lambda>s. retrans (hybrid s)"])
     (simp_all add: log_def common_option_defaults)

lemma getopt_loop_timeout:
  "opt_char CHR ''t'' \<notin> fst ` set opts \<Longrightarrow>
   timeout (hybrid (getopt_loop M E opts s)) = timeout (hybrid s)"
  by (rule getopt_loop_keeps [where C = "{opt_char CHR ''t''}" and f = "\<lambda>s. timeout (hybrid s)"])
     (simp_all add: log_def common_option_defaults)

lemma getopt_loop_flags:
  "opt_char CHR ''a'' \<notin> fst ` set opts \<Longrightarrow> opt_char CHR ''i'' \<notin> fst ` set opts \<Longrightarrow>
   flags (hybrid (getopt_loop M E opts s)) = flags (hybrid s)"
  by (rule getopt_loop_keeps [where C = "{opt_char CHR ''a'', opt_char CHR ''i''}"
        and f = "\<lambda>s. flags (hybrid s)"])
     (simp_all add: log_def common_option_defaults)

lemma getopt_loop_dst_mac:
  "opt_char CHR ''d'' \<notin> fst ` set opts \<Longrightarrow>
   dst_mac (ctx (getopt_loop M E opts s)) = dst_mac (ctx s)"
  by (rule getopt_loop_keeps [where C = "{opt_char CHR ''d''}" and f = "\<lambda>s. dst_mac (ctx s)"])
     (simp_all add: log_def common_option_defaults)

text \<open>
  C10. When the corresponding options are absent, the configuration that option parsing
  leaves has a retransmission limit of 5, an ACK timeout of 1000000 microseconds, no flag
  set and the broadcast address 0xffff as destination, while the help text of the same
  program announces defaults of 4 seconds and 3 retransmissions.
\<close>

theorem C10_defaults:
  "(opt_char CHR ''r'' \<notin> fst ` set opts
      \<longrightarrow> retrans (hybrid (getopt_loop M E opts (initial_proc E st))) = 5) \<and>
   (opt_char CHR ''t'' \<notin> fst ` set opts
      \<longrightarrow> timeout (hybrid (getopt_loop M E opts (initial_proc E st))) = 1000000) \<and>
   (opt_char CHR ''a'' \<notin> fst ` set opts \<and> opt_char CHR ''i'' \<notin> fst ` set opts
      \<longrightarrow> flags (hybrid (getopt_loop M E opts (initial_proc E st))) = 0) \<and>
   (opt_char CHR ''d'' \<notin> fst ` set opts
      \<longrightarrow> dst_mac (ctx (getopt_loop M E opts (initial_proc E st))) = 0xffff) \<and>
   (opt_char CHR ''t'', ''timeout'', ''ACK timeout in microseconds (default 4s)'')
      \<in> set common_messages \<and>
   (opt_char CHR ''r'', ''retransmissions'', ''Maximum number of retransmissions (default 3)'')
      \<in> set common_messages"
proof -
  have i: "retrans (hybrid (initial_proc E st)) = 5" "timeout (hybrid (initial_proc E st)) = 1000000"
    "flags (hybrid (initial_proc E st)) = 0" "dst_mac (ctx (initial_proc E st)) = 0xffff"
    by (simp_all add: initial_proc_def)
  have m: "(opt_char CHR ''t'', ''timeout'', ''ACK timeout in microseconds (default 4s)'')
      \<in> set common_messages"
    "(opt_char CHR ''r'', ''retransmissions'', ''Maximum number of retransmissions (default 3)'')
      \<in> set common_messages"
    by (simp_all add: common_messages_def)
  show ?thesis
    using i m
    by (simp add: getopt_loop_retrans getopt_loop_timeout getopt_loop_flags getopt_loop_dst_mac)
qed

theorem C10_defaults_witness:
  "opt_char CHR ''r'' \<notin> fst ` set [(opt_char CHR ''v'', [])] \<and>
   opt_char CHR ''t'' \<notin> fst ` set [(opt_char CHR ''v'', [])] \<and>
   opt_char CHR ''a'' \<notin> fst ` set [(opt_char CHR ''v'', [])] \<and>
   opt_char CHR ''i'' \<notin> fst ` set [(opt_char CHR ''v'', [])] \<and>
   opt_char CHR ''d'' \<notin> fst ` set [(opt_char CHR ''v'', [])] \<and>
   retrans (hybrid (getopt_loop send_mode test_env [(opt_char CHR ''v'', [])]
     (initial_proc test_env send_statics_initial))) = 5 \<and>
   timeout (hybrid (getopt_loop send_mode test_env [(opt_char CHR ''v'', [])]
     (initial_proc test_env send_statics_initial))) = 1000000 \<and>
   flags (hybrid (getopt_loop send_mode test_env [(opt_char CHR ''v'', [])]
     (initial_proc test_env send_statics_initial))) = 0 \<and>
   dst_mac (ctx (getopt_loop send_mode test_env [(opt_char CHR ''v'', [])]
     (initial_proc test_env send_statics_initial))) = 0xffff"
proof -
  have h: "opt_char CHR ''r'' \<notin> fst ` set [(opt_char CHR ''v'', [])]"
    "opt_char CHR ''t'' \<notin> fst ` set [(opt_char CHR ''v'', [])]"
    "opt_char CHR ''a'' \<notin> fst ` set [(opt_char CHR ''v'', [])]"
    "opt_char CHR ''i'' \<notin> fst ` set [(opt_char CHR ''v'', [])]"
    "opt_char CHR ''d'' \<notin> fst ` set [(opt_char CHR ''v'', [])]"
    by (simp_all add: opt_char_def)
  show ?thesis
    using h C10_defaults [of "[(opt_char CHR ''v'', [])]" send_mode test_env send_statics_initial]
    by simp
qed

section \<open>Mode options before common options\<close>

lemma getopt_loop_recognised:
  assumes "\<forall>(c, a) \<in> set opts. \<forall>x y. fst (parse_option M x c a y) \<noteq> 0"
  shows "common_part (getopt_loop M E opts s) = common_part s"
  using assms
proof (induction opts arbitrary: s)
  case Nil
  show ?case by simp
next
  case (Cons o1 opts)
  obtain c a where o1: "o1 = (c, a)" by (cases o1)
  obtain r st' where p: "parse_option M (ctx s) c a (statics s) = (r, st')"
    by (cases "parse_option M (ctx s) c a (statics s)")
  let ?s1 = "log (Ev_parse_option c) (s\<lparr>statics := st'\<rparr>)"
  from Cons.prems o1 have "fst (parse_option M (ctx s) c a (statics s)) \<noteq> 0" by auto
  with p have r: "r \<noteq> 0" by simp
  from Cons.prems have rest: "\<forall>(c, a) \<in> set opts. \<forall>x y. fst (parse_option M x c a y) \<noteq> 0"
    by simp
  have "getopt_loop M E (o1 # opts) s = getopt_loop M E opts ?s1"
    using r by (simp add: o1 p Let_def)
  moreover have "common_part ?s1 = common_part s" by (simp add: common_part_def log_def)
  ultimately show ?case using Cons.IH [OF rest, of ?s1] by simp
qed

text \<open>
  C6. In every iteration of the option loop the mode's \<^verbatim>\<open>parse_option\<close> is called first: its
  call is the first thing the iteration adds to the record of the run. Whenever it reports
  the option as recognised, the iteration does nothing else: the rest of the loop goes on
  from a state in which only the mode's statics and the record of the call have changed, so
  the \<^verbatim>\<open>switch\<close> over the common options is skipped. In particular a list of options that the
  mode recognises leaves everything the common options could write (context, driver
  configuration, baud rate, exit status, termination) as it was, even when a character is
  also the character of a common option.
\<close>

theorem C6_mode_options_first:
  "(\<exists>tl. trace (getopt_loop M E ((c, a) # rest) s) = trace s @ Ev_parse_option c # tl) \<and>
   (fst (parse_option M (ctx s) c a (statics s)) \<noteq> 0 \<longrightarrow>
      getopt_loop M E ((c, a) # rest) s =
        getopt_loop M E rest
          (log (Ev_parse_option c) (s\<lparr>statics := snd (parse_option M (ctx s) c a (statics s))\<rparr>))) \<and>
   ((\<forall>(c, a) \<in> set opts. \<forall>x y. fst (parse_option M x c a y) \<noteq> 0) \<longrightarrow>
      common_part (getopt_loop M E opts s) = common_part s)"
proof -
  obtain r st' where p: "parse_option M (ctx s) c a (statics s) = (r, st')"
    by (cases "parse_option M (ctx s) c a (statics s)")
  let ?s1 = "log (Ev_parse_option c) (s\<lparr>statics := st'\<rparr>)"
  have t1: "trace ?s1 = trace s @ [Ev_parse_option c]" by (simp add: log_def)
  obtain tl1 where tl1: "trace (getopt_loop M E rest ?s1) = trace ?s1 @ tl1"
    using getopt_loop_trace by blast
  obtain tl2 where tl2: "trace (common_option E c a ?s1) = trace ?s1 @ tl2"
    using common_option_trace by blast
  obtain tl3 where tl3: "trace (getopt_loop M E rest (common_option E c a ?s1)) =
      trace (common_option E c a ?s1) @ tl3"
    using getopt_loop_trace by blast
  have cases: "getopt_loop M E ((c, a) # rest) s = getopt_loop M E rest ?s1 \<or>
        getopt_loop M E ((c, a) # rest) s = common_option E c a ?s1 \<or>
        getopt_loop M E ((c, a) # rest) s = getopt_loop M E rest (common_option E c a ?s1)"
    by (simp add: p Let_def)
  have first: "\<exists>tl. trace (getopt_loop M E ((c, a) # rest) s) = trace s @ Ev_parse_option c # tl"
    using cases
  proof (elim disjE)
    assume "getopt_loop M E ((c, a) # rest) s = getopt_loop M E rest ?s1"
    then have "trace (getopt_loop M E ((c, a) # rest) s) = trace s @ Ev_parse_option c # tl1"
      using tl1 t1 by simp
    then show ?thesis ..
  next
    assume "getopt_loop M E ((c, a) # rest) s = common_option E c a ?s1"
    then have "trace (getopt_loop M E ((c, a) # rest) s) = trace s @ Ev_parse_option c # tl2"
      using tl2 t1 by simp
    then show ?thesis ..
  next
    assume "getopt_loop M E ((c, a) # rest) s = getopt_loop M E rest (common_option E c a ?s1)"
    then have "trace (getopt_loop M E ((c, a) # rest) s) = trace s @ Ev_parse_option c # (tl2 @ tl3)"
      using tl2 tl3 t1 by simp
    then show ?thesis ..
  qed
  have skip: "fst (parse_option M (ctx s) c a (statics s)) \<noteq> 0 \<longrightarrow>
      getopt_loop M E ((c, a) # rest) s =
        getopt_loop M E rest
          (log (Ev_parse_option c) (s\<lparr>statics := snd (parse_option M (ctx s) c a (statics s))\<rparr>))"
    by (simp add: p Let_def)
  have all: "(\<forall>(c, a) \<in> set opts. \<forall>x y. fst (parse_option M x c a y) \<noteq> 0) \<longrightarrow>
      common_part (getopt_loop M E opts s) = common_part s"
    using getopt_loop_recognised by blast
  from first skip all show ?thesis by (intro conjI)
qed

text \<open>
  A mode that claims every option character, and with it the \<^verbatim>\<open>-v\<close> and \<^verbatim>\<open>-h\<close> of the common
  options: neither the verbosity nor the exit status is touched.
\<close>

theorem C6_mode_options_first_witness:
  "fst (parse_option (send_mode\<lparr>parse_option := (\<lambda>x c a y. (1, y))\<rparr>)
          (ctx (initial_proc test_env send_statics_initial)) (opt_char CHR ''v'') []
          (statics (initial_proc test_env send_statics_initial))) \<noteq> 0 \<and>
   (\<forall>x y. fst (parse_option (send_mode\<lparr>parse_option := (\<lambda>x c a y. (1, y))\<rparr>) x
      (opt_char CHR ''v'') [] y) \<noteq> 0) \<and>
   (\<forall>x y. fst (parse_option (send_mode\<lparr>parse_option := (\<lambda>x c a y. (1, y))\<rparr>) x
      (opt_char CHR ''h'') [] y) \<noteq> 0) \<and>
   getopt_loop (send_mode\<lparr>parse_option := (\<lambda>x c a y. (1, y))\<rparr>) test_env
       ((opt_char CHR ''v'', []) # []) (initial_proc test_env send_statics_initial) =
     getopt_loop (send_mode\<lparr>parse_option := (\<lambda>x c a y. (1, y))\<rparr>) test_env []
       (log (Ev_parse_option (opt_char CHR ''v''))
          ((initial_proc test_env send_statics_initial)
             \<lparr>statics := snd (parse_option (send_mode\<lparr>parse_option := (\<lambda>x c a y. (1, y))\<rparr>)
                  (ctx (initial_proc test_env send_statics_initial)) (opt_char CHR ''v'') []
                  (statics (initial_proc test_env send_statics_initial)))\<rparr>)) \<and>
   common_part (getopt_loop (send_mode\<lparr>parse_option := (\<lambda>x c a y. (1, y))\<rparr>) test_env
       [(opt_char CHR ''v'', []), (opt_char CHR ''h'', [])]
       (initial_proc test_env send_statics_initial)) =
     common_part (initial_proc test_env send_statics_initial)"
proof -
  let ?M = "send_mode\<lparr>parse_option := (\<lambda>x c a y. (1, y))\<rparr>"
  let ?s = "initial_proc test_env send_statics_initial"
  have h1: "fst (parse_option ?M (ctx ?s) (opt_char CHR ''v'') [] (statics ?s)) \<noteq> 0"
    by simp
  have h2: "\<forall>(c, a) \<in> set [(opt_char CHR ''v'', []), (opt_char CHR ''h'', [])].
      \<forall>x y. fst (parse_option ?M x c a y) \<noteq> 0"
    by simp
  show ?thesis
    using h1 h2
      C6_mode_options_first [of ?M test_env "opt_char CHR ''v''" "[]" "[]" ?s
        "[(opt_char CHR ''v'', []), (opt_char CHR ''h'', [])]"]
    by simp
qed

section \<open>Runs that end during the set-up, and runs that go on\<close>

lemma main_setup_exited_iff:
  "exited (main_setup M E st opts args) \<noteq> None \<longleftrightarrow>
     exited (getopt_loop M E opts (initial_proc E st)) \<noteq> None \<or> length args \<noteq> 2"
  by (simp add: setup_defs)

lemma main_early:
  assumes "exited (main_setup M E st opts args) \<noteq> None"
  shows "main M E st opts args sched = main_setup M E st opts args"
  unfolding main_def using assms by (rule run_threads_exited)

lemma main_hybrid: "hybrid (main M E st opts args sched) = hybrid (main_setup M E st opts args)"
  by (simp add: main_def run_threads_frame)

lemma main_ctx: "ctx (main M E st opts args sched) = ctx (getopt_loop M E opts (initial_proc E st))"
  by (simp add: main_def run_threads_frame main_setup_ctx)

lemma main_statics:
  "statics (main M E st opts args sched) = statics (getopt_loop M E opts (initial_proc E st))"
  by (simp add: main_def run_threads_frame main_setup_statics)

lemma main_early_trace:
  assumes "exited (main_setup M E st opts args) \<noteq> None"
  shows "list_all parse_event (trace (main M E st opts args sched)) \<and>
         main_pc (main M E st opts args sched) = At_setup"
  using main_setup_early [OF assms] main_early [OF assms] by simp

lemma list_ex_filter_length: "list_ex P xs \<Longrightarrow> 1 \<le> length (filter P xs)"
  by (induction xs) auto

lemmas run_defs = main_def main_setup_def initial_proc_def run_threads_def step_def main_step_def
  output_thread_func_def input_thread_func_def thread_block_signals_def pthread_create_def
  common_option_def switch_label_def goto_EXIT_def errx_def log_def initialize_driver_def
  configure_gpio_def send_mode_def send_init_def send_start_def send_destroy_def
  send_parse_option_def send_statics_initial_def test_env_def read_num_def digit_val_def
  strip_0x_def strlen_def opt_char_def OPT_RESET_def EXIT_SUCCESS_def EXIT_FAILURE_def Let_def

section \<open>The mode's init and the driver's init\<close>

text \<open>
  C2. In every run in which the driver's init (\<^verbatim>\<open>hybrid_init\<close>) is called, it is called
  exactly once, the mode's init has been called before it, and the configuration it is
  given is the one the mode's init returned (the one in which the mode installed its
  receive callback).
\<close>

theorem C2_mode_init_before_driver_init:
  "list_ex is_hybrid_init (trace (main M E st opts args sched)) \<longrightarrow>
     length (filter is_hybrid_init (trace (main M E st opts args sched))) = 1 \<and>
     list_ex is_mode_init (trace (main M E st opts args sched)) \<and>
     preceded_by is_mode_init is_hybrid_init (trace (main M E st opts args sched)) \<and>
     (\<forall>g r. Ev_hybrid_init g r \<in> set (trace (main M E st opts args sched)) \<longrightarrow>
        g = hybrid (main M E st opts args sched) \<and>
        (\<exists>g0. g = init M (ctx (main M E st opts args sched)) g0))"
proof
  let ?s = "main M E st opts args sched"
  assume h: "list_ex is_hybrid_init (trace ?s)"
  have inv: "init_inv ?s" using main_inv [of M E st opts args sched] by simp
  have late: "exited (main_setup M E st opts args) = None"
  proof (rule ccontr)
    assume "exited (main_setup M E st opts args) \<noteq> None"
    then have "list_all parse_event (trace ?s)"
      using main_early_trace [of M E st opts args sched] by simp
    then have "\<not> list_ex is_hybrid_init (trace ?s)"
      using early_trace_not [of "trace ?s"] by simp
    with h show False by simp
  qed
  then have cont: "exited (getopt_loop M E opts (initial_proc E st)) = None" "length args = 2"
    using main_setup_exited_iff [of M E st opts args] by auto
  have hy: "hybrid ?s = init M (ctx ?s)
      ((hybrid (getopt_loop M E opts (initial_proc E st)))
         \<lparr>mac_address := word_of_int (strtol E (args ! 0) 16)\<rparr>)"
    using cont by (simp add: main_hybrid main_setup_hybrid main_ctx)
  have rk: "\<not> (rank (main_pc ?s) \<le> 1 \<or> (rank (main_pc ?s) = 2 \<and> exited ?s = None))"
    using inv h unfolding init_inv_def by blast
  have one: "length (filter is_hybrid_init (trace ?s)) = 1"
    using inv list_ex_filter_length [OF h] unfolding init_inv_def by simp
  have mi: "list_ex is_mode_init (trace ?s)" using inv rk unfolding init_inv_def by simp
  have pb: "preceded_by is_mode_init is_hybrid_init (trace ?s)"
    using inv unfolding init_inv_def by simp
  have cfg: "\<forall>g r. Ev_hybrid_init g r \<in> set (trace ?s) \<longrightarrow>
        g = hybrid ?s \<and> (\<exists>g0. g = init M (ctx ?s) g0)"
  proof (intro allI impI)
    fix g r
    assume "Ev_hybrid_init g r \<in> set (trace ?s)"
    then have g: "g = hybrid ?s" using inv unfolding init_inv_def by blast
    with hy have "\<exists>g0. g = init M (ctx ?s) g0" by metis
    with g show "g = hybrid ?s \<and> (\<exists>g0. g = init M (ctx ?s) g0)" by simp
  qed
  from one mi pb cfg
  show "length (filter is_hybrid_init (trace ?s)) = 1 \<and> list_ex is_mode_init (trace ?s) \<and>
     preceded_by is_mode_init is_hybrid_init (trace ?s) \<and>
     (\<forall>g r. Ev_hybrid_init g r \<in> set (trace ?s) \<longrightarrow>
        g = hybrid ?s \<and> (\<exists>g0. g = init M (ctx ?s) g0))"
    by (intro conjI)
qed

theorem C2_mode_init_before_driver_init_witness:
  "list_ex is_hybrid_init (trace (main send_mode test_env send_statics_initial []
      [''1'', ''/dev/ttyAMA0''] [Main_step 0, Main_step 0])) \<and>
   length (filter is_hybrid_init (trace (main send_mode test_env send_statics_initial []
      [''1'', ''/dev/ttyAMA0''] [Main_step 0, Main_step 0]))) = 1 \<and>
   list_ex is_mode_init (trace (main send_mode test_env send_statics_initial []
      [''1'', ''/dev/ttyAMA0''] [Main_step 0, Main_step 0])) \<and>
   preceded_by is_mode_init is_hybrid_init (trace (main send_mode test_env send_statics_initial []
      [''1'', ''/dev/ttyAMA0''] [Main_step 0, Main_step 0]))"
proof -
  have h: "list_ex is_hybrid_init (trace (main send_mode test_env send_statics_initial []
      [''1'', ''/dev/ttyAMA0''] [Main_step 0, Main_step 0]))"
    by (simp add: run_defs)
  show ?thesis
    using h C2_mode_init_before_driver_init [of send_mode test_env send_statics_initial "[]"
      "[''1'', ''/dev/ttyAMA0'']" "[Main_step 0, Main_step 0]"]
    by simp
qed

section \<open>The signal mask of the threads\<close>

lemma ctl_inv_masks:
  assumes "ctl_inv s"
  shows "2 \<le> rank (main_pc s) \<Longrightarrow> sigalrm_blocked s Main_thread"
    and "output_thread s \<noteq> Not_created \<Longrightarrow> sigalrm_blocked s Output_thread"
    and "input_thread s \<noteq> Not_created \<Longrightarrow> sigalrm_blocked s Input_thread"
  using assms by (simp_all add: ctl_inv_def)

lemma ctl_inv_threads:
  assumes "ctl_inv s"
  shows "rank (main_pc s) \<le> 4 \<Longrightarrow> output_thread s = Not_created"
    and "rank (main_pc s) \<le> 5 \<Longrightarrow> input_thread s = Not_created"
    and "7 \<le> rank (main_pc s) \<Longrightarrow> output_thread s \<noteq> Not_created"
    and "7 \<le> rank (main_pc s) \<Longrightarrow> input_thread s \<noteq> Not_created"
    and "8 \<le> rank (main_pc s) \<Longrightarrow> output_thread s = Returned"
  using assms by (simp_all add: ctl_inv_def)

lemma ctl_inv_spawned:
  assumes "ctl_inv s" and "io_spawned s"
  shows "5 \<le> rank (main_pc s)"
proof (rule ccontr)
  assume "\<not> 5 \<le> rank (main_pc s)"
  then have r: "rank (main_pc s) \<le> 4" "rank (main_pc s) \<le> 5" by simp_all
  from ctl_inv_threads(1) [OF assms(1) r(1)] ctl_inv_threads(2) [OF assms(1) r(2)] assms(2)
  show False by (simp add: io_spawned_def)
qed

text \<open>
  C1. Before either I/O thread is created, the main thread has blocked \<^verbatim>\<open>SIGALRM\<close>: in the
  record of every run no \<^verbatim>\<open>pthread_create\<close> comes before the first successful
  \<^verbatim>\<open>thread_block_signals\<close> of the main thread. A created thread starts with the mask of its
  creator, and the input thread blocks the signal once more itself. So in every state of
  every run in which an I/O thread has been created, under every schedule, every thread
  that exists has the signal blocked: no thread can be handed the timer's signal
  asynchronously, whichever thread waits for the timer.
\<close>

theorem C1_sigalrm_blocked_before_spawn:
  "preceded_by (\<lambda>e. e = Ev_block_signals Main_thread 0) is_create
     (trace (main M E st opts args sched)) \<and>
   (io_spawned (main M E st opts args sched) \<longrightarrow>
      sigalrm_blocked (main M E st opts args sched) Main_thread \<and>
      (\<forall>t. \<not> can_receive_sigalrm (main M E st opts args sched) t))"
proof -
  let ?s = "main M E st opts args sched"
  have c: "ctl_inv ?s" and k: "create_inv ?s"
    using main_inv [of M E st opts args sched] by simp_all
  have 1: "preceded_by (\<lambda>e. e = Ev_block_signals Main_thread 0) is_create (trace ?s)"
    using k unfolding create_inv_def by simp
  have 2: "io_spawned ?s \<longrightarrow>
      sigalrm_blocked ?s Main_thread \<and> (\<forall>t. \<not> can_receive_sigalrm ?s t)"
  proof
    assume sp: "io_spawned ?s"
    have "2 \<le> rank (main_pc ?s)" using ctl_inv_spawned [OF c sp] by simp
    then have m: "sigalrm_blocked ?s Main_thread" by (rule ctl_inv_masks(1) [OF c])
    have "\<not> can_receive_sigalrm ?s t" for t
    proof (cases t)
      case Main_thread
      with m show ?thesis by (simp add: can_receive_sigalrm_def)
    next
      case Output_thread
      with ctl_inv_masks(2) [OF c] show ?thesis by (auto simp: can_receive_sigalrm_def)
    next
      case Input_thread
      with ctl_inv_masks(3) [OF c] show ?thesis by (auto simp: can_receive_sigalrm_def)
    qed
    with m show "sigalrm_blocked ?s Main_thread \<and> (\<forall>t. \<not> can_receive_sigalrm ?s t)" by simp
  qed
  from 1 2 show ?thesis by (intro conjI)
qed

theorem C1_sigalrm_blocked_before_spawn_witness:
  "io_spawned (main send_mode test_env send_statics_initial [] [''1'', ''/dev/ttyAMA0'']
      [Main_step 0, Main_step 0, Main_step 0, Main_step 0, Main_step 0]) \<and>
   thread_exists (main send_mode test_env send_statics_initial [] [''1'', ''/dev/ttyAMA0'']
      [Main_step 0, Main_step 0, Main_step 0, Main_step 0, Main_step 0]) Output_thread \<and>
   thread_exists (main send_mode test_env send_statics_initial [] [''1'', ''/dev/ttyAMA0'']
      [Main_step 0, Main_step 0, Main_step 0, Main_step 0, Main_step 0]) Input_thread \<and>
   sigalrm_blocked (main send_mode test_env send_statics_initial [] [''1'', ''/dev/ttyAMA0'']
      [Main_step 0, Main_step 0, Main_step 0, Main_step 0, Main_step 0]) Main_thread \<and>
   (\<forall>t. \<not> can_receive_sigalrm (main send_mode test_env send_statics_initial []
      [''1'', ''/dev/ttyAMA0''] [Main_step 0, Main_step 0, Main_step 0, Main_step 0, Main_step 0]) t) \<and>
   preceded_by (\<lambda>e. e = Ev_block_signals Main_thread 0) is_create
     (trace (main send_mode test_env send_statics_initial [] [''1'', ''/dev/ttyAMA0'']
      [Main_step 0, Main_step 0, Main_step 0, Main_step 0, Main_step 0]))"
proof -
  let ?s = "main send_mode test_env send_statics_initial [] [''1'', ''/dev/ttyAMA0'']
      [Main_step 0, Main_step 0, Main_step 0, Main_step 0, Main_step 0]"
  have o: "output_thread ?s = Created" by (simp add: run_defs)
  have i: "input_thread ?s = Created" by (simp add: run_defs)
  have h: "io_spawned ?s" using o by (simp add: io_spawned_def)
  have e: "thread_exists ?s Output_thread" "thread_exists ?s Input_thread"
    using o i by simp_all
  show ?thesis
    using h e C1_sigalrm_blocked_before_spawn [of send_mode test_env send_statics_initial "[]"
      "[''1'', ''/dev/ttyAMA0'']" "[Main_step 0, Main_step 0, Main_step 0, Main_step 0, Main_step 0]"]
    by simp
qed

section \<open>Creating and joining the threads\<close>

lemma create_inv_facts:
  assumes "create_inv s"
  shows "5 \<le> rank (main_pc s) \<Longrightarrow> \<exists>r. Ev_create Output_thread r \<in> set (trace s)"
    and "6 \<le> rank (main_pc s) \<Longrightarrow> \<exists>r. Ev_create Input_thread r \<in> set (trace s)"
    and "Ev_create Output_thread r \<in> set (trace s) \<Longrightarrow> (r = 0 \<longleftrightarrow> output_thread s \<noteq> Not_created)"
    and "Ev_create Input_thread r \<in> set (trace s) \<Longrightarrow> (r = 0 \<longleftrightarrow> input_thread s \<noteq> Not_created)"
    and "Ev_create Main_thread r \<notin> set (trace s)"
    and "rank (main_pc s) \<le> 4 \<Longrightarrow> \<not> list_ex is_create (trace s)"
  using assms by (simp_all add: create_inv_def)

lemma destroy_inv_facts:
  assumes "destroy_inv s"
  shows "Ev_join Input_thread \<notin> set (trace s)"
    and "Ev_join Output_thread \<in> set (trace s) \<longleftrightarrow> 8 \<le> rank (main_pc s)"
    and "rank (main_pc s) \<le> 8 \<Longrightarrow> \<not> list_ex is_destroy (trace s)"
    and "rank (main_pc s) = 9 \<Longrightarrow> length (filter is_destroy (trace s)) = 1"
    and "preceded_by (\<lambda>e. e = Ev_join Output_thread) is_destroy (trace s)"
  using assms by (simp_all add: destroy_inv_def)

lemma exit_inv_facts:
  assumes "exit_inv s"
  shows "exited s = Some x \<Longrightarrow> 1 \<le> rank (main_pc s) \<Longrightarrow> \<not> list_ex is_errx (trace s)
           \<Longrightarrow> x = EXIT_SUCCESS \<and> main_pc s = At_EXIT"
    and "exited s = Some x \<Longrightarrow> 1 \<le> rank (main_pc s) \<Longrightarrow> rank (main_pc s) \<le> 8
           \<Longrightarrow> x = EXIT_FAILURE"
  using assms by (simp_all add: exit_inv_def)

lemma ctl_inv_err:
  assumes "ctl_inv s" and "main_pc s = At_check_err"
  shows "err s = 0 \<longleftrightarrow> output_thread s \<noteq> Not_created \<and> input_thread s \<noteq> Not_created"
  using assms by (simp add: ctl_inv_def)

lemma failed_create_cases:
  assumes "list_ex is_failed_create tr"
  obtains t r where "Ev_create t r \<in> set tr" and "r \<noteq> 0"
proof -
  from assms obtain e where e: "e \<in> set tr" "is_failed_create e" by (auto simp: list_ex_iff)
  from e(2) obtain t r where "e = Ev_create t r" "r \<noteq> 0" by (cases e) simp_all
  with e that show thesis by blast
qed

lemma failed_create_not_spawned:
  assumes c: "ctl_inv s" and k: "create_inv s" and f: "list_ex is_failed_create (trace s)"
  shows "output_thread s = Not_created \<or> input_thread s = Not_created"
    and "5 \<le> rank (main_pc s)" and "rank (main_pc s) \<le> 6"
proof -
  from f obtain t r where e: "Ev_create t r \<in> set (trace s)" and r: "r \<noteq> 0"
    by (rule failed_create_cases)
  show n: "output_thread s = Not_created \<or> input_thread s = Not_created"
  proof (cases t)
    case Main_thread
    with e create_inv_facts(5) [OF k] show ?thesis by simp
  next
    case Output_thread
    with e r create_inv_facts(3) [OF k, of r] show ?thesis by simp
  next
    case Input_thread
    with e r create_inv_facts(4) [OF k, of r] show ?thesis by simp
  qed
  show "5 \<le> rank (main_pc s)"
  proof (rule ccontr)
    assume "\<not> 5 \<le> rank (main_pc s)"
    then have "rank (main_pc s) \<le> 4" by simp
    then have "\<not> list_ex is_create (trace s)" by (rule create_inv_facts(6) [OF k])
    with e show False by (auto simp: list_ex_iff)
  qed
  show "rank (main_pc s) \<le> 6"
  proof (rule ccontr)
    assume "\<not> rank (main_pc s) \<le> 6"
    then have "7 \<le> rank (main_pc s)" by simp
    with ctl_inv_threads(3) [OF c] ctl_inv_threads(4) [OF c] n show False by simp
  qed
qed

lemma check_err_fatal:
  assumes "main_pc s = At_check_err" and "exited s = None" and "err s \<noteq> 0"
  shows "exited (step M s (Main_step r)) = Some EXIT_FAILURE"
  using assms by (simp add: step_def main_step_def errx_def log_def)

text \<open>
  C7. The main thread calls \<^verbatim>\<open>pthread_create\<close> for the output thread and for the input
  thread (the second call is made whatever the first returned); once it is past its check
  of the results, both threads have been created. It joins the output thread only: no run
  ever joins the input thread, and the join of the output thread happens only after that
  thread has returned. When either \<^verbatim>\<open>pthread_create\<close> fails, the main thread never gets
  past the check, the process can only end with the failure status, and the check itself
  ends it with that status.
\<close>

theorem C7_spawn_both_join_writer:
  "(6 \<le> rank (main_pc (main M E st opts args sched)) \<longrightarrow>
      (\<exists>r. Ev_create Output_thread r \<in> set (trace (main M E st opts args sched))) \<and>
      (\<exists>r. Ev_create Input_thread r \<in> set (trace (main M E st opts args sched)))) \<and>
   (7 \<le> rank (main_pc (main M E st opts args sched)) \<longrightarrow>
      Ev_create Output_thread 0 \<in> set (trace (main M E st opts args sched)) \<and>
      Ev_create Input_thread 0 \<in> set (trace (main M E st opts args sched))) \<and>
   Ev_join Input_thread \<notin> set (trace (main M E st opts args sched)) \<and>
   (Ev_join Output_thread \<in> set (trace (main M E st opts args sched)) \<longrightarrow>
      output_thread (main M E st opts args sched) = Returned) \<and>
   (list_ex is_failed_create (trace (main M E st opts args sched)) \<longrightarrow>
      rank (main_pc (main M E st opts args sched)) \<le> 6 \<and>
      Ev_join Output_thread \<notin> set (trace (main M E st opts args sched)) \<and>
      (exited (main M E st opts args sched) = None \<or>
       exited (main M E st opts args sched) = Some EXIT_FAILURE) \<and>
      (main_pc (main M E st opts args sched) = At_check_err \<and>
       exited (main M E st opts args sched) = None \<longrightarrow>
         exited (step M (main M E st opts args sched) (Main_step r')) = Some EXIT_FAILURE))"
proof -
  let ?s = "main M E st opts args sched"
  have c: "ctl_inv ?s" and k: "create_inv ?s" and d: "destroy_inv ?s" and x: "exit_inv ?s"
    using main_inv [of M E st opts args sched] by simp_all
  have 1: "6 \<le> rank (main_pc ?s) \<longrightarrow>
      (\<exists>r. Ev_create Output_thread r \<in> set (trace ?s)) \<and>
      (\<exists>r. Ev_create Input_thread r \<in> set (trace ?s))"
    using create_inv_facts(1) [OF k] create_inv_facts(2) [OF k] by simp
  have 2: "7 \<le> rank (main_pc ?s) \<longrightarrow>
      Ev_create Output_thread 0 \<in> set (trace ?s) \<and> Ev_create Input_thread 0 \<in> set (trace ?s)"
  proof
    assume r: "7 \<le> rank (main_pc ?s)"
    then obtain ro ri where e: "Ev_create Output_thread ro \<in> set (trace ?s)"
      "Ev_create Input_thread ri \<in> set (trace ?s)"
      using create_inv_facts(1) [OF k] create_inv_facts(2) [OF k] by auto
    have "ro = 0" using create_inv_facts(3) [OF k e(1)] ctl_inv_threads(3) [OF c r] by simp
    moreover have "ri = 0" using create_inv_facts(4) [OF k e(2)] ctl_inv_threads(4) [OF c r] by simp
    ultimately show "Ev_create Output_thread 0 \<in> set (trace ?s) \<and>
      Ev_create Input_thread 0 \<in> set (trace ?s)" using e by simp
  qed
  have 3: "Ev_join Input_thread \<notin> set (trace ?s)" by (rule destroy_inv_facts(1) [OF d])
  have 4: "Ev_join Output_thread \<in> set (trace ?s) \<longrightarrow> output_thread ?s = Returned"
    using destroy_inv_facts(2) [OF d] ctl_inv_threads(5) [OF c] by simp
  have 5: "list_ex is_failed_create (trace ?s) \<longrightarrow>
      rank (main_pc ?s) \<le> 6 \<and> Ev_join Output_thread \<notin> set (trace ?s) \<and>
      (exited ?s = None \<or> exited ?s = Some EXIT_FAILURE) \<and>
      (main_pc ?s = At_check_err \<and> exited ?s = None \<longrightarrow>
         exited (step M ?s (Main_step r')) = Some EXIT_FAILURE)"
  proof
    assume f: "list_ex is_failed_create (trace ?s)"
    note n = failed_create_not_spawned [OF c k f]
    have a: "rank (main_pc ?s) \<le> 6" by (rule n(3))
    have b: "Ev_join Output_thread \<notin> set (trace ?s)"
      using destroy_inv_facts(2) [OF d] a by simp
    have e: "exited ?s = None \<or> exited ?s = Some EXIT_FAILURE"
    proof (cases "exited ?s")
      case None
      then show ?thesis by simp
    next
      case (Some y)
      have "y = EXIT_FAILURE"
        using exit_inv_facts(2) [OF x Some] n(2) a by simp
      with Some show ?thesis by simp
    qed
    have g: "main_pc ?s = At_check_err \<and> exited ?s = None \<longrightarrow>
         exited (step M ?s (Main_step r')) = Some EXIT_FAILURE"
    proof
      assume p: "main_pc ?s = At_check_err \<and> exited ?s = None"
      then have "err ?s \<noteq> 0" using ctl_inv_err [OF c] n(1) by auto
      with p show "exited (step M ?s (Main_step r')) = Some EXIT_FAILURE"
        using check_err_fatal by blast
    qed
    from a b e g show "rank (main_pc ?s) \<le> 6 \<and> Ev_join Output_thread \<notin> set (trace ?s) \<and>
      (exited ?s = None \<or> exited ?s = Some EXIT_FAILURE) \<and>
      (main_pc ?s = At_check_err \<and> exited ?s = None \<longrightarrow>
         exited (step M ?s (Main_step r')) = Some EXIT_FAILURE)"
      by (intro conjI)
  qed
  from 1 2 3 4 5 show ?thesis by (intro conjI)
qed

text \<open>
  Two runs: one in which both threads are created and the output thread is joined, and
  one in which the second \<^verbatim>\<open>pthread_create\<close> fails.
\<close>

theorem C7_spawn_both_join_writer_witness:
  "7 \<le> rank (main_pc (main send_mode test_env send_statics_initial [] [''1'', ''/dev/ttyAMA0'']
      [Main_step 0, Main_step 0, Main_step 0, Main_step 0, Main_step 0, Main_step 0,
       Output_step 0, Main_step 0])) \<and>
   Ev_join Output_thread \<in> set (trace (main send_mode test_env send_statics_initial []
      [''1'', ''/dev/ttyAMA0'']
      [Main_step 0, Main_step 0, Main_step 0, Main_step 0, Main_step 0, Main_step 0,
       Output_step 0, Main_step 0])) \<and>
   Ev_create Output_thread 0 \<in> set (trace (main send_mode test_env send_statics_initial []
      [''1'', ''/dev/ttyAMA0'']
      [Main_step 0, Main_step 0, Main_step 0, Main_step 0, Main_step 0, Main_step 0,
       Output_step 0, Main_step 0])) \<and>
   Ev_create Input_thread 0 \<in> set (trace (main send_mode test_env send_statics_initial []
      [''1'', ''/dev/ttyAMA0'']
      [Main_step 0, Main_step 0, Main_step 0, Main_step 0, Main_step 0, Main_step 0,
       Output_step 0, Main_step 0])) \<and>
   output_thread (main send_mode test_env send_statics_initial [] [''1'', ''/dev/ttyAMA0'']
      [Main_step 0, Main_step 0, Main_step 0, Main_step 0, Main_step 0, Main_step 0,
       Output_step 0, Main_step 0]) = Returned \<and>
   Ev_join Input_thread \<notin> set (trace (main send_mode test_env send_statics_initial []
      [''1'', ''/dev/ttyAMA0'']
      [Main_step 0, Main_step 0, Main_step 0, Main_step 0, Main_step 0, Main_step 0,
       Output_step 0, Main_step 0])) \<and>
   list_ex is_failed_create (trace (main send_mode test_env send_statics_initial []
      [''1'', ''/dev/ttyAMA0''] [Main_step 0, Main_step 0, Main_step 0, Main_step 0, Main_step 11])) \<and>
   main_pc (main send_mode test_env send_statics_initial []
      [''1'', ''/dev/ttyAMA0''] [Main_step 0, Main_step 0, Main_step 0, Main_step 0, Main_step 11])
     = At_check_err \<and>
   exited (main send_mode test_env send_statics_initial []
      [''1'', ''/dev/ttyAMA0''] [Main_step 0, Main_step 0, Main_step 0, Main_step 0, Main_step 11])
     = None \<and>
   exited (step send_mode (main send_mode test_env send_statics_initial []
      [''1'', ''/dev/ttyAMA0''] [Main_step 0, Main_step 0, Main_step 0, Main_step 0, Main_step 11])
      (Main_step 0)) = Some EXIT_FAILURE"
proof -
  let ?a = "main send_mode test_env send_statics_initial [] [''1'', ''/dev/ttyAMA0'']
      [Main_step 0, Main_step 0, Main_step 0, Main_step 0, Main_step 0, Main_step 0,
       Output_step 0, Main_step 0]"
  let ?b = "main send_mode test_env send_statics_initial []
      [''1'', ''/dev/ttyAMA0''] [Main_step 0, Main_step 0, Main_step 0, Main_step 0, Main_step 11]"
  have a1: "main_pc ?a = At_destroy" by (simp add: run_defs)
  have a2: "Ev_join Output_thread \<in> set (trace ?a)" by (simp add: run_defs)
  have b1: "main_pc ?b = At_check_err" by (simp add: run_defs)
  have b2: "exited ?b = None" by (simp add: run_defs)
  have b3: "list_ex is_failed_create (trace ?b)" by (simp add: run_defs)
  have a3: "7 \<le> rank (main_pc ?a)" using a1 by simp
  show ?thesis
    using a2 a3 b1 b2 b3
      C7_spawn_both_join_writer [of send_mode test_env send_statics_initial "[]"
        "[''1'', ''/dev/ttyAMA0'']" "[Main_step 0, Main_step 0, Main_step 0, Main_step 0,
          Main_step 0, Main_step 0, Output_step 0, Main_step 0]" 0]
      C7_spawn_both_join_writer [of send_mode test_env send_statics_initial "[]"
        "[''1'', ''/dev/ttyAMA0'']"
        "[Main_step 0, Main_step 0, Main_step 0, Main_step 0, Main_step 11]" 0]
    by simp
qed

section \<open>The mode's destroy\<close>

lemma rank_At_EXIT: "rank pc = 9 \<longleftrightarrow> pc = At_EXIT"
  by (cases pc) simp_all

lemma destroy_at_most_once:
  assumes "destroy_inv s"
  shows "length (filter is_destroy (trace s)) \<le> 1"
proof (cases "rank (main_pc s) \<le> 8")
  case True
  then have "\<not> list_ex is_destroy (trace s)" by (rule destroy_inv_facts(3) [OF assms])
  then show ?thesis by (simp add: filter_none)
next
  case False
  have "rank (main_pc s) \<le> 9" by (cases "main_pc s") simp_all
  with False have "rank (main_pc s) = 9" by simp
  then show ?thesis using destroy_inv_facts(4) [OF assms] by simp
qed

lemma length_filter_list_ex: "length (filter P xs) = 1 \<Longrightarrow> list_ex P xs"
  by (induction xs) (auto split: if_splits)

lemma exit_order_main_step:
  assumes d: "destroy_inv s" and o: "exit_order_inv s" and x: "exited s = None"
  shows "exit_order_inv (main_step M r s)"
proof -
  have k: "main_pc s = At_EXIT \<Longrightarrow> list_ex is_destroy (trace s)"
    using destroy_inv_facts(4) [OF d] by (simp add: length_filter_list_ex)
  show ?thesis
    using o k unfolding exit_order_inv_def main_step_def
    by (cases "main_pc s") (simp_all add: thread_defs preceded_by_append)
qed

lemma exit_order_output: "exit_order_inv s \<Longrightarrow> exit_order_inv (output_thread_func M r s)"
  unfolding exit_order_inv_def output_thread_func_def
  by (cases "output_thread s") (simp_all add: log_def preceded_by_append)

lemma exit_order_input: "exit_order_inv s \<Longrightarrow> exit_order_inv (input_thread_func r s)"
  unfolding exit_order_inv_def input_thread_func_def
  by (cases "input_thread s") (simp_all add: thread_defs preceded_by_append)

lemma exit_order_step:
  "destroy_inv s \<Longrightarrow> exit_order_inv s \<Longrightarrow> exit_order_inv (step M s a)"
  unfolding step_def
  by (cases a) (simp_all add: exit_order_main_step exit_order_output exit_order_input)

lemma setup_trace_no_exit: "list_all setup_event tr \<Longrightarrow> \<not> list_ex is_exit tr"
proof -
  have "\<not> is_exit e" if "setup_event e" for e
    using that by (cases e) simp_all
  then show "list_all setup_event tr \<Longrightarrow> \<not> list_ex is_exit tr"
    by (auto simp: list_all_iff list_ex_iff)
qed

lemma main_setup_exit_order: "exit_order_inv (main_setup M E st opts args)"
proof (cases "exited (main_setup M E st opts args) = None")
  case True
  from main_setup_ready [OF True] have "list_all setup_event (trace (main_setup M E st opts args))"
    by simp
  then have "\<not> list_ex is_exit (trace (main_setup M E st opts args))"
    by (rule setup_trace_no_exit)
  then show ?thesis by (simp add: exit_order_inv_def preceded_by_none)
next
  case False
  from main_setup_early [OF False] show ?thesis by (simp add: exit_order_inv_def)
qed

lemma main_exit_order: "exit_order_inv (main M E st opts args sched)"
proof -
  have "destroy_inv (main M E st opts args sched) \<and> exit_order_inv (main M E st opts args sched)"
    unfolding main_def
    by (rule run_threads_rule [where P = "\<lambda>s. destroy_inv s \<and> exit_order_inv s"])
       (simp_all add: main_setup_inv main_setup_exit_order destroy_inv_step exit_order_step)
  then show ?thesis by simp
qed

lemma main_step_past_setup: "1 \<le> rank (main_pc s) \<Longrightarrow> 1 \<le> rank (main_pc (main_step M r s))"
  unfolding main_step_def
  by (cases "main_pc s") (simp_all add: thread_defs)

lemma output_thread_func_pc: "main_pc (output_thread_func M r s) = main_pc s"
  unfolding output_thread_func_def
  by (cases "output_thread s") (simp_all add: log_def)

lemma input_thread_func_pc: "main_pc (input_thread_func r s) = main_pc s"
  unfolding input_thread_func_def
  by (cases "input_thread s") (simp_all add: thread_defs)

lemma step_past_setup: "1 \<le> rank (main_pc s) \<Longrightarrow> 1 \<le> rank (main_pc (step M s a))"
  using main_step_past_setup [of s M] unfolding step_def
  by (cases a) (simp_all add: output_thread_func_pc input_thread_func_pc)

lemma main_past_setup:
  assumes "exited (main_setup M E st opts args) = None"
  shows "1 \<le> rank (main_pc (main M E st opts args sched))"
proof -
  from main_setup_ready [OF assms] have "1 \<le> rank (main_pc (main_setup M E st opts args))"
    by simp
  then show ?thesis
    unfolding main_def
    by (rule run_threads_rule [where P = "\<lambda>s. 1 \<le> rank (main_pc s)"]) (rule step_past_setup)
qed

text \<open>
  C4, as the code has it. The mode's destroy is called at most once, and only at one place:
  after both threads have been created and the main thread has joined the output thread,
  which had returned by then; whether the input thread has ended is not waited for. Every
  run that gets past the set-up and ends without a fatal error, that is through the \<^verbatim>\<open>exit\<close>
  at the end of \<^verbatim>\<open>main\<close>, has called destroy exactly once, before that \<^verbatim>\<open>exit\<close>. A run that
  ends before the main thread has reached the call (help, version, a wrong number of
  arguments, an option value that is refused, a failure of the main thread's
  \<^verbatim>\<open>pthread_sigmask\<close>, of the driver's init or of \<^verbatim>\<open>pthread_create\<close>, or a fatal error of the
  input thread that comes first) never calls it.
\<close>

theorem C4_destroy_only_after_join:
  "length (filter is_destroy (trace (main M E st opts args sched))) \<le> 1 \<and>
   (list_ex is_destroy (trace (main M E st opts args sched)) \<longrightarrow>
      main_pc (main M E st opts args sched) = At_EXIT \<and>
      output_thread (main M E st opts args sched) = Returned \<and>
      input_thread (main M E st opts args sched) \<noteq> Not_created \<and>
      Ev_join Output_thread \<in> set (trace (main M E st opts args sched)) \<and>
      preceded_by (\<lambda>e. e = Ev_join Output_thread) is_destroy
        (trace (main M E st opts args sched))) \<and>
   (main_pc (main M E st opts args sched) = At_EXIT \<longrightarrow>
      length (filter is_destroy (trace (main M E st opts args sched))) = 1) \<and>
   (exited (main_setup M E st opts args) \<noteq> None \<longrightarrow>
      \<not> list_ex is_destroy (trace (main M E st opts args sched))) \<and>
   (rank (main_pc (main M E st opts args sched)) \<le> 8 \<longrightarrow>
      \<not> list_ex is_destroy (trace (main M E st opts args sched))) \<and>
   (list_ex is_failed_create (trace (main M E st opts args sched)) \<longrightarrow>
      \<not> list_ex is_destroy (trace (main M E st opts args sched))) \<and>
   (exited (main_setup M E st opts args) = None \<and>
    exited (main M E st opts args sched) = Some x \<and>
    \<not> list_ex is_errx (trace (main M E st opts args sched)) \<longrightarrow>
      x = EXIT_SUCCESS \<and>
      length (filter is_destroy (trace (main M E st opts args sched))) = 1 \<and>
      preceded_by is_destroy is_exit (trace (main M E st opts args sched)))"
proof -
  let ?s = "main M E st opts args sched"
  have c: "ctl_inv ?s" and d: "destroy_inv ?s" and k: "create_inv ?s" and e: "exit_inv ?s"
    using main_inv [of M E st opts args sched] by simp_all
  have 1: "length (filter is_destroy (trace ?s)) \<le> 1" by (rule destroy_at_most_once [OF d])
  have 5: "rank (main_pc ?s) \<le> 8 \<longrightarrow> \<not> list_ex is_destroy (trace ?s)"
    using destroy_inv_facts(3) [OF d] by simp
  have 2: "list_ex is_destroy (trace ?s) \<longrightarrow>
      main_pc ?s = At_EXIT \<and> output_thread ?s = Returned \<and> input_thread ?s \<noteq> Not_created \<and>
      Ev_join Output_thread \<in> set (trace ?s) \<and>
      preceded_by (\<lambda>e. e = Ev_join Output_thread) is_destroy (trace ?s)"
  proof
    assume h: "list_ex is_destroy (trace ?s)"
    with 5 have "\<not> rank (main_pc ?s) \<le> 8" by blast
    moreover have "rank (main_pc ?s) \<le> 9" by (cases "main_pc ?s") simp_all
    ultimately have r: "rank (main_pc ?s) = 9" by simp
    then have a: "main_pc ?s = At_EXIT" by (simp add: rank_At_EXIT)
    from r have r8: "8 \<le> rank (main_pc ?s)" and r7: "7 \<le> rank (main_pc ?s)" by simp_all
    have b: "output_thread ?s = Returned" by (rule ctl_inv_threads(5) [OF c r8])
    have i: "input_thread ?s \<noteq> Not_created" by (rule ctl_inv_threads(4) [OF c r7])
    have j: "Ev_join Output_thread \<in> set (trace ?s)" using destroy_inv_facts(2) [OF d] r8 by simp
    have p: "preceded_by (\<lambda>e. e = Ev_join Output_thread) is_destroy (trace ?s)"
      by (rule destroy_inv_facts(5) [OF d])
    from a b i j p show "main_pc ?s = At_EXIT \<and> output_thread ?s = Returned \<and>
      input_thread ?s \<noteq> Not_created \<and> Ev_join Output_thread \<in> set (trace ?s) \<and>
      preceded_by (\<lambda>e. e = Ev_join Output_thread) is_destroy (trace ?s)"
      by (intro conjI)
  qed
  have 3: "main_pc ?s = At_EXIT \<longrightarrow> length (filter is_destroy (trace ?s)) = 1"
    using destroy_inv_facts(4) [OF d] by (simp add: rank_At_EXIT)
  have 4: "exited (main_setup M E st opts args) \<noteq> None \<longrightarrow> \<not> list_ex is_destroy (trace ?s)"
  proof
    assume "exited (main_setup M E st opts args) \<noteq> None"
    then have "main_pc ?s = At_setup" using main_early_trace [of M E st opts args sched] by simp
    then have "rank (main_pc ?s) \<le> 8" by simp
    with 5 show "\<not> list_ex is_destroy (trace ?s)" by simp
  qed
  have 6: "list_ex is_failed_create (trace ?s) \<longrightarrow> \<not> list_ex is_destroy (trace ?s)"
  proof
    assume "list_ex is_failed_create (trace ?s)"
    from failed_create_not_spawned(3) [OF c k this] have "rank (main_pc ?s) \<le> 8" by simp
    with 5 show "\<not> list_ex is_destroy (trace ?s)" by simp
  qed
  have 7: "exited (main_setup M E st opts args) = None \<and> exited ?s = Some x \<and>
      \<not> list_ex is_errx (trace ?s) \<longrightarrow>
      x = EXIT_SUCCESS \<and> length (filter is_destroy (trace ?s)) = 1 \<and>
      preceded_by is_destroy is_exit (trace ?s)"
  proof
    assume h: "exited (main_setup M E st opts args) = None \<and> exited ?s = Some x \<and>
      \<not> list_ex is_errx (trace ?s)"
    then have r: "1 \<le> rank (main_pc ?s)" using main_past_setup [of M E st opts args sched] by simp
    from h have hx: "exited ?s = Some x" and hn: "\<not> list_ex is_errx (trace ?s)" by simp_all
    from exit_inv_facts(1) [OF e hx r hn]
    have a: "x = EXIT_SUCCESS" and b: "main_pc ?s = At_EXIT" by simp_all
    from b 3 have n: "length (filter is_destroy (trace ?s)) = 1" by simp
    have p: "preceded_by is_destroy is_exit (trace ?s)"
      using main_exit_order [of M E st opts args sched] r by (simp add: exit_order_inv_def)
    from a n p show "x = EXIT_SUCCESS \<and> length (filter is_destroy (trace ?s)) = 1 \<and>
      preceded_by is_destroy is_exit (trace ?s)"
      by (intro conjI)
  qed
  from 1 2 3 4 5 6 7 show ?thesis by (intro conjI)
qed

text \<open>
  A complete run, in which destroy is called, and the run of \<^verbatim>\<open>--help\<close>, which ends during
  the set-up.
\<close>

theorem C4_destroy_only_after_join_witness:
  "list_ex is_destroy (trace (main send_mode test_env send_statics_initial []
      [''1'', ''/dev/ttyAMA0'']
      [Main_step 0, Main_step 0, Main_step 0, Main_step 0, Main_step 0, Main_step 0,
       Output_step 0, Main_step 0, Main_step 0, Main_step 0])) \<and>
   main_pc (main send_mode test_env send_statics_initial [] [''1'', ''/dev/ttyAMA0'']
      [Main_step 0, Main_step 0, Main_step 0, Main_step 0, Main_step 0, Main_step 0,
       Output_step 0, Main_step 0, Main_step 0, Main_step 0]) = At_EXIT \<and>
   output_thread (main send_mode test_env send_statics_initial [] [''1'', ''/dev/ttyAMA0'']
      [Main_step 0, Main_step 0, Main_step 0, Main_step 0, Main_step 0, Main_step 0,
       Output_step 0, Main_step 0, Main_step 0, Main_step 0]) = Returned \<and>
   length (filter is_destroy (trace (main send_mode test_env send_statics_initial []
      [''1'', ''/dev/ttyAMA0'']
      [Main_step 0, Main_step 0, Main_step 0, Main_step 0, Main_step 0, Main_step 0,
       Output_step 0, Main_step 0, Main_step 0, Main_step 0]))) = 1 \<and>
   exited (main_setup send_mode test_env send_statics_initial [] [''1'', ''/dev/ttyAMA0''])
     = None \<and>
   exited (main send_mode test_env send_statics_initial [] [''1'', ''/dev/ttyAMA0'']
      [Main_step 0, Main_step 0, Main_step 0, Main_step 0, Main_step 0, Main_step 0,
       Output_step 0, Main_step 0, Main_step 0, Main_step 0]) = Some EXIT_SUCCESS \<and>
   \<not> list_ex is_errx (trace (main send_mode test_env send_statics_initial []
      [''1'', ''/dev/ttyAMA0'']
      [Main_step 0, Main_step 0, Main_step 0, Main_step 0, Main_step 0, Main_step 0,
       Output_step 0, Main_step 0, Main_step 0, Main_step 0])) \<and>
   preceded_by is_destroy is_exit (trace (main send_mode test_env send_statics_initial []
      [''1'', ''/dev/ttyAMA0'']
      [Main_step 0, Main_step 0, Main_step 0, Main_step 0, Main_step 0, Main_step 0,
       Output_step 0, Main_step 0, Main_step 0, Main_step 0])) \<and>
   list_ex is_failed_create (trace (main send_mode test_env send_statics_initial []
      [''1'', ''/dev/ttyAMA0''] [Main_step 0, Main_step 0, Main_step 0, Main_step 0, Main_step 11,
       Main_step 0])) \<and>
   \<not> list_ex is_destroy (trace (main send_mode test_env send_statics_initial []
      [''1'', ''/dev/ttyAMA0''] [Main_step 0, Main_step 0, Main_step 0, Main_step 0, Main_step 11,
       Main_step 0])) \<and>
   exited (main_setup send_mode test_env send_statics_initial [(opt_char CHR ''h'', [])] [])
     \<noteq> None \<and>
   rank (main_pc (main send_mode test_env send_statics_initial [(opt_char CHR ''h'', [])] [] []))
     \<le> 8 \<and>
   \<not> list_ex is_destroy
       (trace (main send_mode test_env send_statics_initial [(opt_char CHR ''h'', [])] [] []))"
proof -
  let ?a = "main send_mode test_env send_statics_initial [] [''1'', ''/dev/ttyAMA0'']
      [Main_step 0, Main_step 0, Main_step 0, Main_step 0, Main_step 0, Main_step 0,
       Output_step 0, Main_step 0, Main_step 0, Main_step 0]"
  let ?c = "main send_mode test_env send_statics_initial []
      [''1'', ''/dev/ttyAMA0''] [Main_step 0, Main_step 0, Main_step 0, Main_step 0, Main_step 11,
       Main_step 0]"
  have a1: "list_ex is_destroy (trace ?a)" by (simp add: run_defs)
  have a2: "exited (main_setup send_mode test_env send_statics_initial []
      [''1'', ''/dev/ttyAMA0'']) = None"
    by (simp add: run_defs)
  have a3: "exited ?a = Some (exit_status ?a)" by (simp add: run_defs)
  have a4: "\<not> list_ex is_errx (trace ?a)" by (simp add: run_defs)
  have c1: "list_ex is_failed_create (trace ?c)" by (simp add: run_defs)
  have b1: "exited (main_setup send_mode test_env send_statics_initial
      [(opt_char CHR ''h'', [])] []) \<noteq> None"
    by (simp add: run_defs)
  have b2: "rank (main_pc (main send_mode test_env send_statics_initial
      [(opt_char CHR ''h'', [])] [] [])) \<le> 8"
    by (simp add: run_defs)
  show ?thesis
    using a1 a2 a3 a4 b1 b2 c1
      C4_destroy_only_after_join [of send_mode test_env send_statics_initial "[]"
        "[''1'', ''/dev/ttyAMA0'']" "[Main_step 0, Main_step 0, Main_step 0, Main_step 0,
          Main_step 0, Main_step 0, Output_step 0, Main_step 0, Main_step 0, Main_step 0]"
        "exit_status ?a"]
      C4_destroy_only_after_join [of send_mode test_env send_statics_initial "[]"
        "[''1'', ''/dev/ttyAMA0'']"
        "[Main_step 0, Main_step 0, Main_step 0, Main_step 0, Main_step 11, Main_step 0]" 0]
      C4_destroy_only_after_join [of send_mode test_env send_statics_initial
        "[(opt_char CHR ''h'', [])]" "[]" "[]" 0]
    by simp
qed

text \<open>
  The claim as the specification states it fails: the run of \<^verbatim>\<open>--help\<close> ends with the success
  status and destroy is never called; and in a complete run destroy is called while the
  input thread is still in its read loop.
\<close>

theorem C4_counterexample:
  "exited (main send_mode test_env send_statics_initial [(opt_char CHR ''h'', [])] [] [])
     = Some EXIT_SUCCESS \<and>
   \<not> list_ex is_destroy
       (trace (main send_mode test_env send_statics_initial [(opt_char CHR ''h'', [])] [] [])) \<and>
   list_ex is_destroy (trace (main send_mode test_env send_statics_initial []
      [''1'', ''/dev/ttyAMA0'']
      [Main_step 0, Main_step 0, Main_step 0, Main_step 0, Main_step 0, Main_step 0,
       Output_step 0, Input_step 0, Main_step 0, Main_step 0, Main_step 0])) \<and>
   input_thread (main send_mode test_env send_statics_initial []
      [''1'', ''/dev/ttyAMA0'']
      [Main_step 0, Main_step 0, Main_step 0, Main_step 0, Main_step 0, Main_step 0,
       Output_step 0, Input_step 0, Main_step 0, Main_step 0, Main_step 0]) = In_read_loop"
proof -
  have 1: "exited (main send_mode test_env send_statics_initial [(opt_char CHR ''h'', [])] [] [])
     = Some EXIT_SUCCESS"
    by (simp add: run_defs)
  have 2: "\<not> list_ex is_destroy
       (trace (main send_mode test_env send_statics_initial [(opt_char CHR ''h'', [])] [] []))"
    by (simp add: run_defs)
  have 3: "list_ex is_destroy (trace (main send_mode test_env send_statics_initial []
      [''1'', ''/dev/ttyAMA0'']
      [Main_step 0, Main_step 0, Main_step 0, Main_step 0, Main_step 0, Main_step 0,
       Output_step 0, Input_step 0, Main_step 0, Main_step 0, Main_step 0]))"
    by (simp add: run_defs)
  have 4: "input_thread (main send_mode test_env send_statics_initial []
      [''1'', ''/dev/ttyAMA0'']
      [Main_step 0, Main_step 0, Main_step 0, Main_step 0, Main_step 0, Main_step 0,
       Output_step 0, Input_step 0, Main_step 0, Main_step 0, Main_step 0]) = In_read_loop"
    by (simp add: run_defs)
  from 1 2 3 4 show ?thesis by (intro conjI)
qed

section \<open>The exit status after the send\<close>

lemma same_but_trace_refl: "same_but_trace s s"
  by (simp add: same_but_trace_def)

lemma exited_any_send_status:
  "exited (main M E st opts args (map (with_send_status r) sched)) =
   exited (main M E st opts args sched)"
proof -
  have "same_but_trace (run_threads M sched (main_setup M E st opts args))
          (run_threads M (map (with_send_status r) sched) (main_setup M E st opts args))"
    by (rule same_but_trace_run [OF same_but_trace_refl])
  then show ?thesis by (simp add: main_def same_but_trace_def)
qed

text \<open>
  C3, as the code has it. In every run in which the mode's start has returned (the send has
  completed, with whatever status) and the process ends without a fatal error of its own
  (a failed \<^verbatim>\<open>pthread_create\<close> or \<^verbatim>\<open>pthread_sigmask\<close>), the process ends with the success
  status. The status of the send is only printed by start: with any other status returned
  by the send, under the same schedule, the process ends in the same way.
\<close>

theorem C3_exit_status_after_send:
  "(output_thread (main M E st opts args sched) = Returned \<and>
    exited (main M E st opts args sched) = Some x \<and>
    \<not> list_ex is_errx (trace (main M E st opts args sched)) \<longrightarrow> x = EXIT_SUCCESS) \<and>
   exited (main M E st opts args (map (with_send_status r) sched)) =
     exited (main M E st opts args sched)"
proof -
  let ?s = "main M E st opts args sched"
  have c: "ctl_inv ?s" and e: "exit_inv ?s"
    using main_inv [of M E st opts args sched] by simp_all
  have 1: "output_thread ?s = Returned \<and> exited ?s = Some x \<and> \<not> list_ex is_errx (trace ?s)
      \<longrightarrow> x = EXIT_SUCCESS"
  proof
    assume h: "output_thread ?s = Returned \<and> exited ?s = Some x \<and> \<not> list_ex is_errx (trace ?s)"
    have "\<not> rank (main_pc ?s) \<le> 4" using ctl_inv_threads(1) [OF c] h by auto
    then have r: "1 \<le> rank (main_pc ?s)" by simp
    from h have x: "exited ?s = Some x" and n: "\<not> list_ex is_errx (trace ?s)" by simp_all
    from exit_inv_facts(1) [OF e x r n] show "x = EXIT_SUCCESS" by simp
  qed
  from 1 exited_any_send_status [of M E st opts args r sched] show ?thesis by (intro conjI)
qed

text \<open>A complete run in which the send reports a failure (status 3).\<close>

theorem C3_exit_status_after_send_witness:
  "output_thread (main send_mode test_env send_statics_initial [] [''1'', ''/dev/ttyAMA0'']
      [Main_step 0, Main_step 0, Main_step 0, Main_step 0, Main_step 0, Main_step 0,
       Output_step 3, Main_step 0, Main_step 0, Main_step 0]) = Returned \<and>
   exited (main send_mode test_env send_statics_initial [] [''1'', ''/dev/ttyAMA0'']
      [Main_step 0, Main_step 0, Main_step 0, Main_step 0, Main_step 0, Main_step 0,
       Output_step 3, Main_step 0, Main_step 0, Main_step 0]) = Some EXIT_SUCCESS \<and>
   \<not> list_ex is_errx (trace (main send_mode test_env send_statics_initial []
      [''1'', ''/dev/ttyAMA0'']
      [Main_step 0, Main_step 0, Main_step 0, Main_step 0, Main_step 0, Main_step 0,
       Output_step 3, Main_step 0, Main_step 0, Main_step 0])) \<and>
   Ev_start [Clock_gettime, G3plc_send 0xffff ''Hello World!'' 12, Clock_gettime,
        Putchar CHR 0x0A, Print_tx_status 3]
     \<in> set (trace (main send_mode test_env send_statics_initial [] [''1'', ''/dev/ttyAMA0'']
      [Main_step 0, Main_step 0, Main_step 0, Main_step 0, Main_step 0, Main_step 0,
       Output_step 3, Main_step 0, Main_step 0, Main_step 0]))"
proof -
  let ?a = "main send_mode test_env send_statics_initial [] [''1'', ''/dev/ttyAMA0'']
      [Main_step 0, Main_step 0, Main_step 0, Main_step 0, Main_step 0, Main_step 0,
       Output_step 3, Main_step 0, Main_step 0, Main_step 0]"
  have 1: "output_thread ?a = Returned" by (simp add: run_defs)
  have 2: "exited ?a = Some (exit_status ?a)" by (simp add: run_defs)
  have 3: "\<not> list_ex is_errx (trace ?a)" by (simp add: run_defs)
  have 4: "Ev_start [Clock_gettime, G3plc_send 0xffff ''Hello World!'' 12, Clock_gettime,
        Putchar CHR 0x0A, Print_tx_status 3] \<in> set (trace ?a)"
    by (simp add: run_defs)
  show ?thesis
    using 1 2 3 4
      C3_exit_status_after_send [of send_mode test_env send_statics_initial "[]"
        "[''1'', ''/dev/ttyAMA0'']" "[Main_step 0, Main_step 0, Main_step 0, Main_step 0,
          Main_step 0, Main_step 0, Output_step 3, Main_step 0, Main_step 0, Main_step 0]"
        "exit_status ?a" 0]
    by simp
qed

text \<open>
  The claim as the specification states it fails: the output thread is created and its
  send completes, then the creation of the input thread fails, and the process ends with
  the failure status.
\<close>

theorem C3_counterexample:
  "output_thread (main send_mode test_env send_statics_initial [] [''1'', ''/dev/ttyAMA0'']
      [Main_step 0, Main_step 0, Main_step 0, Main_step 0, Output_step 0, Main_step 11,
       Main_step 0]) = Returned \<and>
   Ev_start [Clock_gettime, G3plc_send 0xffff ''Hello World!'' 12, Clock_gettime,
        Putchar CHR 0x0A, Print_tx_status 0]
     \<in> set (trace (main send_mode test_env send_statics_initial [] [''1'', ''/dev/ttyAMA0'']
      [Main_step 0, Main_step 0, Main_step 0, Main_step 0, Output_step 0, Main_step 11,
       Main_step 0])) \<and>
   exited (main send_mode test_env send_statics_initial [] [''1'', ''/dev/ttyAMA0'']
      [Main_step 0, Main_step 0, Main_step 0, Main_step 0, Output_step 0, Main_step 11,
       Main_step 0]) = Some EXIT_FAILURE \<and>
   EXIT_FAILURE \<noteq> EXIT_SUCCESS"
proof -
  let ?a = "main send_mode test_env send_statics_initial [] [''1'', ''/dev/ttyAMA0'']
      [Main_step 0, Main_step 0, Main_step 0, Main_step 0, Output_step 0, Main_step 11,
       Main_step 0]"
  have 1: "output_thread ?a = Returned" by (simp add: run_defs)
  have 2: "Ev_start [Clock_gettime, G3plc_send 0xffff ''Hello World!'' 12, Clock_gettime,
        Putchar CHR 0x0A, Print_tx_status 0] \<in> set (trace ?a)"
    by (simp add: run_defs)
  have 3: "exited ?a = Some EXIT_FAILURE" by (simp add: run_defs)
  have 4: "EXIT_FAILURE \<noteq> EXIT_SUCCESS" by (simp add: EXIT_FAILURE_def EXIT_SUCCESS_def)
  from 1 2 3 4 show ?thesis by (intro conjI)
qed

section \<open>The run of \<^verbatim>\<open>-a -r 3 -d 0x1234\<close>\<close>

lemma start_inv_facts:
  assumes "start_inv M s"
  shows "length (filter is_start (trace s)) \<le> 1"
    and "Ev_start evs \<in> set (trace s) \<Longrightarrow> \<exists>r. evs = start M (ctx s) (statics s) r"
  using assms by (simp_all add: start_inv_def)

lemma send_start_sends:
  "filter is_send (send_start c st r) = [G3plc_send (dst_mac c) (message st) (strlen (message st))]"
  by (simp add: send_start_def)

lemma send_mode_start: "start send_mode = send_start"
  by (simp add: send_mode_def)

lemma default_message:
  "message send_statics_initial = ''Hello World!''"
  "strlen ''Hello World!'' = 12"
  by (simp_all add: send_statics_initial_def strlen_def)

lemma send_init_flags: "flags (send_init c g) = flags g \<and> retrans (send_init c g) = retrans g"
  by (simp add: send_init_def)

lemma send_main_flags:
  "flags (hybrid (main send_mode E st opts args sched)) =
   flags (hybrid (getopt_loop send_mode E opts (initial_proc E st)))"
  by (simp add: main_hybrid main_setup_hybrid send_mode_def send_init_flags)

lemma noack_send:
  assumes "flags g AND G3PLC_NOACK E \<noteq> 0"
  shows "attempts (driver_send E g acked) = 1 \<and> ack_waits (driver_send E g acked) = 0 \<and>
         status (driver_send E g acked) = SEND_SUCCESS"
  using assms by (simp add: driver_send_def g3plc_send_spec_def)

lemma options_a_r_d:
  assumes "xatou E ''3'' = (3, 0)" and "strtol E d 16 = 0x1234"
  shows "dst_mac (ctx (getopt_loop send_mode E
           [(opt_char CHR ''a'', a0), (opt_char CHR ''r'', ''3''), (opt_char CHR ''d'', d)]
           (initial_proc E send_statics_initial))) = 0x1234"
    and "statics (getopt_loop send_mode E
           [(opt_char CHR ''a'', a0), (opt_char CHR ''r'', ''3''), (opt_char CHR ''d'', d)]
           (initial_proc E send_statics_initial)) = send_statics_initial"
    and "flags (hybrid (getopt_loop send_mode E
           [(opt_char CHR ''a'', a0), (opt_char CHR ''r'', ''3''), (opt_char CHR ''d'', d)]
           (initial_proc E send_statics_initial))) = G3PLC_NOACK E"
    and "retrans (hybrid (getopt_loop send_mode E
           [(opt_char CHR ''a'', a0), (opt_char CHR ''r'', ''3''), (opt_char CHR ''d'', d)]
           (initial_proc E send_statics_initial))) = 3"
  using assms
  by (simp_all add: send_mode_def send_parse_option_def common_option_def switch_label_def
        opt_char_def OPT_RESET_def initial_proc_def log_def Let_def)

text \<open>
  C5. With the options \<^verbatim>\<open>-a -r 3\<close> and the destination 0x1234, and without \<^verbatim>\<open>-m\<close>, the mode's
  start runs at most once and, when it runs, calls the send operation exactly once, with
  destination 0x1234, the payload \<^verbatim>\<open>Hello World!\<close> and size 12. The configuration the send
  operation works under has the no-ACK flag set, so the send operation of the
  specification makes one attempt, waits for no acknowledgment and reports success.
\<close>

theorem C5_send_once_no_ack:
  assumes "xatou E ''3'' = (3, 0)" and "strtol E d 16 = 0x1234" and "G3PLC_NOACK E \<noteq> 0"
  shows
  "length (filter is_start (trace (main send_mode E send_statics_initial
      [(opt_char CHR ''a'', a0), (opt_char CHR ''r'', ''3''), (opt_char CHR ''d'', d)] args sched)))
     \<le> 1 \<and>
   (\<forall>evs. Ev_start evs \<in> set (trace (main send_mode E send_statics_initial
      [(opt_char CHR ''a'', a0), (opt_char CHR ''r'', ''3''), (opt_char CHR ''d'', d)] args sched))
     \<longrightarrow> filter is_send evs = [G3plc_send 0x1234 ''Hello World!'' 12]) \<and>
   attempts (driver_send E (hybrid (main send_mode E send_statics_initial
      [(opt_char CHR ''a'', a0), (opt_char CHR ''r'', ''3''), (opt_char CHR ''d'', d)] args sched))
      acked) = 1 \<and>
   ack_waits (driver_send E (hybrid (main send_mode E send_statics_initial
      [(opt_char CHR ''a'', a0), (opt_char CHR ''r'', ''3''), (opt_char CHR ''d'', d)] args sched))
      acked) = 0 \<and>
   status (driver_send E (hybrid (main send_mode E send_statics_initial
      [(opt_char CHR ''a'', a0), (opt_char CHR ''r'', ''3''), (opt_char CHR ''d'', d)] args sched))
      acked) = SEND_SUCCESS"
proof -
  let ?opts = "[(opt_char CHR ''a'', a0), (opt_char CHR ''r'', ''3''), (opt_char CHR ''d'', d)]"
  let ?s = "main send_mode E send_statics_initial ?opts args sched"
  let ?l = "getopt_loop send_mode E ?opts (initial_proc E send_statics_initial)"
  note o = options_a_r_d [OF assms(1) assms(2), of a0]
  have si: "start_inv send_mode ?s"
    using main_inv [of send_mode E send_statics_initial ?opts args sched] by simp
  have cx: "dst_mac (ctx ?s) = 0x1234" by (simp only: main_ctx o(1))
  have ss: "statics ?s = send_statics_initial" by (simp only: main_statics o(2))
  have 1: "length (filter is_start (trace ?s)) \<le> 1" by (rule start_inv_facts(1) [OF si])
  have 2: "\<forall>evs. Ev_start evs \<in> set (trace ?s)
      \<longrightarrow> filter is_send evs = [G3plc_send 0x1234 ''Hello World!'' 12]"
  proof (intro allI impI)
    fix evs
    assume "Ev_start evs \<in> set (trace ?s)"
    then obtain r where "evs = start send_mode (ctx ?s) (statics ?s) r"
      using start_inv_facts(2) [OF si] by blast
    then have "evs = send_start (ctx ?s) send_statics_initial r"
      by (simp only: ss send_mode_start)
    then have "filter is_send evs =
        [G3plc_send (dst_mac (ctx ?s)) (message send_statics_initial)
           (strlen (message send_statics_initial))]"
      by (simp only: send_start_sends)
    then show "filter is_send evs = [G3plc_send 0x1234 ''Hello World!'' 12]"
      by (simp only: cx default_message)
  qed
  have "flags (hybrid ?s) = G3PLC_NOACK E"
    by (simp only: send_main_flags o(3))
  then have "flags (hybrid ?s) AND G3PLC_NOACK E = G3PLC_NOACK E"
    by (simp only: and.idem)
  then have "flags (hybrid ?s) AND G3PLC_NOACK E \<noteq> 0"
    using assms(3) by (simp only:) simp
  then have 3: "attempts (driver_send E (hybrid ?s) acked) = 1 \<and>
      ack_waits (driver_send E (hybrid ?s) acked) = 0 \<and>
      status (driver_send E (hybrid ?s) acked) = SEND_SUCCESS"
    by (rule noack_send)
  from 3 have 4: "attempts (driver_send E (hybrid ?s) acked) = 1"
    and 5: "ack_waits (driver_send E (hybrid ?s) acked) = 0"
    and 6: "status (driver_send E (hybrid ?s) acked) = SEND_SUCCESS"
    by (rule conjunct1, rule conjunct2 [THEN conjunct1], rule conjunct2 [THEN conjunct2])
  from 1 2 4 5 6 show ?thesis by (intro conjI)
qed

theorem C5_send_once_no_ack_witness:
  "xatou test_env ''3'' = (3, 0) \<and> strtol test_env ''0x1234'' 16 = 0x1234 \<and>
   G3PLC_NOACK test_env \<noteq> 0 \<and>
   Ev_start [Clock_gettime, G3plc_send 0x1234 ''Hello World!'' 12, Clock_gettime,
        Putchar CHR 0x0A, Print_tx_status 0]
     \<in> set (trace (main send_mode test_env send_statics_initial
      [(opt_char CHR ''a'', []), (opt_char CHR ''r'', ''3''), (opt_char CHR ''d'', ''0x1234'')]
      [''1'', ''/dev/ttyAMA0'']
      [Main_step 0, Main_step 0, Main_step 0, Main_step 0, Main_step 0, Main_step 0,
       Output_step 0])) \<and>
   filter is_send [Clock_gettime, G3plc_send 0x1234 ''Hello World!'' 12, Clock_gettime,
        Putchar CHR 0x0A, Print_tx_status 0] = [G3plc_send 0x1234 ''Hello World!'' 12] \<and>
   attempts (driver_send test_env (hybrid (main send_mode test_env send_statics_initial
      [(opt_char CHR ''a'', []), (opt_char CHR ''r'', ''3''), (opt_char CHR ''d'', ''0x1234'')]
      [''1'', ''/dev/ttyAMA0'']
      [Main_step 0, Main_step 0, Main_step 0, Main_step 0, Main_step 0, Main_step 0,
       Output_step 0])) (\<lambda>n. False)) = 1 \<and>
   ack_waits (driver_send test_env (hybrid (main send_mode test_env send_statics_initial
      [(opt_char CHR ''a'', []), (opt_char CHR ''r'', ''3''), (opt_char CHR ''d'', ''0x1234'')]
      [''1'', ''/dev/ttyAMA0'']
      [Main_step 0, Main_step 0, Main_step 0, Main_step 0, Main_step 0, Main_step 0,
       Output_step 0])) (\<lambda>n. False)) = 0"
proof -
  have h1: "xatou test_env ''3'' = (3, 0)"
    by (simp add: test_env_def read_num_def digit_val_def)
  have h2: "strtol test_env ''0x1234'' 16 = 0x1234"
    by (simp add: test_env_def read_num_def digit_val_def strip_0x_def)
  have h3: "G3PLC_NOACK test_env \<noteq> 0" by (simp add: test_env_def)
  have e: "Ev_start [Clock_gettime, G3plc_send 0x1234 ''Hello World!'' 12, Clock_gettime,
        Putchar CHR 0x0A, Print_tx_status 0]
     \<in> set (trace (main send_mode test_env send_statics_initial
      [(opt_char CHR ''a'', []), (opt_char CHR ''r'', ''3''), (opt_char CHR ''d'', ''0x1234'')]
      [''1'', ''/dev/ttyAMA0'']
      [Main_step 0, Main_step 0, Main_step 0, Main_step 0, Main_step 0, Main_step 0,
       Output_step 0]))"
    by (simp add: run_defs)
  show ?thesis
    using h1 h2 h3 e
      C5_send_once_no_ack [OF h1 h2 h3, of "[]" "[''1'', ''/dev/ttyAMA0'']"
        "[Main_step 0, Main_step 0, Main_step 0, Main_step 0, Main_step 0, Main_step 0,
          Output_step 0]" "\<lambda>n. False"]
    by simp
qed

section \<open>An invalid reset pin\<close>

lemma mode_step_exited: "exited (log e (s\<lparr>statics := x\<rparr>)) = exited s"
  by (simp add: log_def)

lemma getopt_loop_append_exit:
  "exited s = None \<Longrightarrow> exited (getopt_loop M E xs s) \<noteq> None \<Longrightarrow>
   getopt_loop M E (xs @ ys) s = getopt_loop M E xs s"
proof (induction xs arbitrary: s)
  case Nil
  then show ?case by simp
next
  case (Cons o1 xs)
  obtain c a where o1: "o1 = (c, a)" by (cases o1)
  obtain r st' where p: "parse_option M (ctx s) c a (statics s) = (r, st')"
    by (cases "parse_option M (ctx s) c a (statics s)")
  let ?s1 = "log (Ev_parse_option c) (s\<lparr>statics := st'\<rparr>)"
  let ?s2 = "common_option E c a ?s1"
  have e1: "exited ?s1 = None" using Cons.prems(1) by (simp only: mode_step_exited)
  show ?case
  proof (cases "r \<noteq> 0")
    case True
    then have u: "getopt_loop M E (o1 # xs) s = getopt_loop M E xs ?s1"
      "getopt_loop M E ((o1 # xs) @ ys) s = getopt_loop M E (xs @ ys) ?s1"
      by (simp_all add: o1 p Let_def)
    from Cons.prems(2) u(1) have "exited (getopt_loop M E xs ?s1) \<noteq> None" by simp
    from Cons.IH [OF e1 this] u show ?thesis by simp
  next
    case False
    show ?thesis
    proof (cases "exited ?s2 \<noteq> None")
      case True
      with False show ?thesis by (simp add: o1 p Let_def)
    next
      case n: False
      with False have u: "getopt_loop M E (o1 # xs) s = getopt_loop M E xs ?s2"
        "getopt_loop M E ((o1 # xs) @ ys) s = getopt_loop M E (xs @ ys) ?s2"
        by (simp_all add: o1 p Let_def)
      from n have e2: "exited ?s2 = None" by simp
      from Cons.prems(2) u(1) have "exited (getopt_loop M E xs ?s2) \<noteq> None" by simp
      from Cons.IH [OF e2 this] u show ?thesis by simp
    qed
  qed
qed

lemma getopt_loop_append_continue:
  "exited (getopt_loop M E xs s) = None \<Longrightarrow>
   getopt_loop M E (xs @ ys) s = getopt_loop M E ys (getopt_loop M E xs s)"
proof (induction xs arbitrary: s)
  case Nil
  then show ?case by simp
next
  case (Cons o1 xs)
  obtain c a where o1: "o1 = (c, a)" by (cases o1)
  obtain r st' where p: "parse_option M (ctx s) c a (statics s) = (r, st')"
    by (cases "parse_option M (ctx s) c a (statics s)")
  let ?s1 = "log (Ev_parse_option c) (s\<lparr>statics := st'\<rparr>)"
  let ?s2 = "common_option E c a ?s1"
  show ?case
  proof (cases "r \<noteq> 0")
    case True
    then have u: "getopt_loop M E (o1 # xs) s = getopt_loop M E xs ?s1"
      "getopt_loop M E ((o1 # xs) @ ys) s = getopt_loop M E (xs @ ys) ?s1"
      by (simp_all add: o1 p Let_def)
    from Cons.prems u(1) have "exited (getopt_loop M E xs ?s1) = None" by simp
    from Cons.IH [OF this] u show ?thesis by simp
  next
    case False
    show ?thesis
    proof (cases "exited ?s2 \<noteq> None")
      case True
      with False have "getopt_loop M E (o1 # xs) s = ?s2" by (simp add: o1 p Let_def)
      with Cons.prems True show ?thesis by simp
    next
      case n: False
      with False have u: "getopt_loop M E (o1 # xs) s = getopt_loop M E xs ?s2"
        "getopt_loop M E ((o1 # xs) @ ys) s = getopt_loop M E (xs @ ys) ?s2"
        by (simp_all add: o1 p Let_def)
      from Cons.prems u(1) have "exited (getopt_loop M E xs ?s2) = None" by simp
      from Cons.IH [OF this] u show ?thesis by simp
    qed
  qed
qed

lemma common_option_reset_invalid:
  assumes "invalid_reset E a"
  shows "exited (common_option E OPT_RESET a s) = Some EXIT_FAILURE \<and>
         (trace (common_option E OPT_RESET a s) = trace s @ [Ev_errx ''cannot parse RESET GPIO''] \<or>
          trace (common_option E OPT_RESET a s) = trace s @ [Ev_errx ''invalid RESET GPIO number''])"
proof -
  have l: "switch_label OPT_RESET = Case_OPT_RESET" by (simp add: switch_label_def)
  show ?thesis
    using assms unfolding common_option_def l invalid_reset_def
    by (cases "xatou E a") (auto simp: errx_def log_def Let_def)
qed

lemma reset_reached:
  assumes inv: "invalid_reset E a"
    and mode: "\<forall>x oa y. fst (parse_option M x OPT_RESET oa y) = 0"
  shows "exited (getopt_loop M E ((OPT_RESET, a) # post) s) = Some EXIT_FAILURE \<and>
         (last (trace (getopt_loop M E ((OPT_RESET, a) # post) s)) = Ev_errx ''cannot parse RESET GPIO'' \<or>
          last (trace (getopt_loop M E ((OPT_RESET, a) # post) s)) = Ev_errx ''invalid RESET GPIO number'')"
proof -
  obtain r st' where p: "parse_option M (ctx s) OPT_RESET a (statics s) = (r, st')"
    by (cases "parse_option M (ctx s) OPT_RESET a (statics s)")
  from mode have "fst (parse_option M (ctx s) OPT_RESET a (statics s)) = 0" by blast
  with p have r: "r = 0" by simp
  let ?s1 = "log (Ev_parse_option OPT_RESET) (s\<lparr>statics := st'\<rparr>)"
  note c = common_option_reset_invalid [OF inv, of ?s1]
  from c have x: "exited (common_option E OPT_RESET a ?s1) = Some EXIT_FAILURE" by (rule conjunct1)
  then have "getopt_loop M E ((OPT_RESET, a) # post) s = common_option E OPT_RESET a ?s1"
    using r by (simp add: p Let_def)
  with c show ?thesis by auto
qed

lemma parse_trace_quiet:
  assumes "list_all parse_event tr"
  shows "\<not> list_ex is_serial_init tr \<and> \<not> list_ex is_hybrid_init tr"
proof -
  have "\<not> is_serial_init e \<and> \<not> is_hybrid_init e" if "parse_event e" for e
    using that by (cases e) simp_all
  with assms show ?thesis by (auto simp: list_all_iff list_ex_iff)
qed

lemma initial_not_exited: "exited (initial_proc E st) = None"
  by (simp add: initial_proc_def)

lemma main_loop_exit:
  assumes "exited (getopt_loop M E opts (initial_proc E st)) \<noteq> None"
  shows "main M E st opts args sched = getopt_loop M E opts (initial_proc E st)"
proof -
  have m: "main_setup M E st opts args = getopt_loop M E opts (initial_proc E st)"
    using assms by (simp add: main_setup_def)
  with assms have "exited (main_setup M E st opts args) \<noteq> None" by simp
  from main_early [OF this] m show ?thesis by simp
qed

text \<open>
  C8, as the code has it. When the command line holds a reset option with an invalid pin
  number (one that \<^verbatim>\<open>xatou\<close> cannot read or that \<^verbatim>\<open>rpi_gpio_check\<close> refuses) and the mode
  does not claim that option, the process ends during option parsing: the serial line is
  never initialised and the driver's init is never called. When option parsing reaches the
  reset option (no option before it has ended the run, as \<^verbatim>\<open>--help\<close> or \<^verbatim>\<open>--version\<close> would),
  the process ends with the failure status and the last thing it does is to print the fatal
  diagnostic.
\<close>

theorem C8_invalid_reset_is_fatal:
  assumes "invalid_reset E a"
    and "\<forall>x oa y. fst (parse_option M x OPT_RESET oa y) = 0"
  shows
  "\<not> list_ex is_serial_init (trace (main M E st (pre @ (OPT_RESET, a) # post) args sched)) \<and>
   \<not> list_ex is_hybrid_init (trace (main M E st (pre @ (OPT_RESET, a) # post) args sched)) \<and>
   exited (main M E st (pre @ (OPT_RESET, a) # post) args sched) \<noteq> None \<and>
   main_pc (main M E st (pre @ (OPT_RESET, a) # post) args sched) = At_setup \<and>
   (exited (getopt_loop M E pre (initial_proc E st)) = None \<longrightarrow>
      exited (main M E st (pre @ (OPT_RESET, a) # post) args sched) = Some EXIT_FAILURE \<and>
      (last (trace (main M E st (pre @ (OPT_RESET, a) # post) args sched))
         = Ev_errx ''cannot parse RESET GPIO'' \<or>
       last (trace (main M E st (pre @ (OPT_RESET, a) # post) args sched))
         = Ev_errx ''invalid RESET GPIO number''))"
proof -
  let ?opts = "pre @ (OPT_RESET, a) # post"
  let ?s = "main M E st ?opts args sched"
  let ?p = "getopt_loop M E pre (initial_proc E st)"
  let ?l = "getopt_loop M E ?opts (initial_proc E st)"
  note rr = reset_reached [OF assms, of post ?p]
  have reach: "exited ?p = None \<Longrightarrow> ?l = getopt_loop M E ((OPT_RESET, a) # post) ?p"
    by (rule getopt_loop_append_continue)
  have ex: "exited ?l \<noteq> None"
  proof (cases "exited ?p = None")
    case True
    from reach [OF True] rr show ?thesis by simp
  next
    case False
    from getopt_loop_append_exit [OF initial_not_exited False, of "(OPT_RESET, a) # post"] False
    show ?thesis by simp
  qed
  have m: "?s = ?l" by (rule main_loop_exit [OF ex])
  have ms: "exited (main_setup M E st ?opts args) \<noteq> None"
    using ex main_setup_exited_iff [of M E st ?opts args] by simp
  note et = main_early_trace [OF ms, of sched]
  from et have q: "\<not> list_ex is_serial_init (trace ?s) \<and> \<not> list_ex is_hybrid_init (trace ?s)"
    using parse_trace_quiet [of "trace ?s"] by simp
  from et have pc: "main_pc ?s = At_setup" by simp
  have e: "exited ?s \<noteq> None" using ex m by simp
  have f: "exited ?p = None \<longrightarrow>
      exited ?s = Some EXIT_FAILURE \<and>
      (last (trace ?s) = Ev_errx ''cannot parse RESET GPIO'' \<or>
       last (trace ?s) = Ev_errx ''invalid RESET GPIO number'')"
  proof
    assume n: "exited ?p = None"
    from reach [OF n] m have "?s = getopt_loop M E ((OPT_RESET, a) # post) ?p" by simp
    with rr show "exited ?s = Some EXIT_FAILURE \<and>
      (last (trace ?s) = Ev_errx ''cannot parse RESET GPIO'' \<or>
       last (trace ?s) = Ev_errx ''invalid RESET GPIO number'')"
      by simp
  qed
  from q e pc f show ?thesis by (intro conjI) simp_all
qed

text \<open>The run of \<^verbatim>\<open>-v --reset 99\<close>: pin 99 is refused by the GPIO check.\<close>

theorem C8_invalid_reset_is_fatal_witness:
  "invalid_reset test_env ''99'' \<and>
   (\<forall>x oa y. fst (parse_option send_mode x OPT_RESET oa y) = 0) \<and>
   exited (getopt_loop send_mode test_env [(opt_char CHR ''v'', [])]
      (initial_proc test_env send_statics_initial)) = None \<and>
   exited (main send_mode test_env send_statics_initial
      ([(opt_char CHR ''v'', [])] @ (OPT_RESET, ''99'') # []) [''1'', ''/dev/ttyAMA0''] [])
     = Some EXIT_FAILURE \<and>
   last (trace (main send_mode test_env send_statics_initial
      ([(opt_char CHR ''v'', [])] @ (OPT_RESET, ''99'') # []) [''1'', ''/dev/ttyAMA0''] []))
     = Ev_errx ''invalid RESET GPIO number'' \<and>
   \<not> list_ex is_serial_init (trace (main send_mode test_env send_statics_initial
      ([(opt_char CHR ''v'', [])] @ (OPT_RESET, ''99'') # []) [''1'', ''/dev/ttyAMA0''] [])) \<and>
   \<not> list_ex is_hybrid_init (trace (main send_mode test_env send_statics_initial
      ([(opt_char CHR ''v'', [])] @ (OPT_RESET, ''99'') # []) [''1'', ''/dev/ttyAMA0''] []))"
proof -
  have h1: "invalid_reset test_env ''99''"
    by (simp add: invalid_reset_def test_env_def read_num_def digit_val_def)
  have h2: "\<forall>x oa y. fst (parse_option send_mode x OPT_RESET oa y) = 0"
    by (simp add: send_mode_def send_parse_option_def OPT_RESET_def opt_char_def)
  have h3: "exited (getopt_loop send_mode test_env [(opt_char CHR ''v'', [])]
      (initial_proc test_env send_statics_initial)) = None"
    by (simp add: run_defs)
  have l: "last (trace (main send_mode test_env send_statics_initial
      ([(opt_char CHR ''v'', [])] @ (OPT_RESET, ''99'') # []) [''1'', ''/dev/ttyAMA0''] []))
     = Ev_errx ''invalid RESET GPIO number''"
    by (simp add: run_defs)
  show ?thesis
    using h1 h2 h3 l
      C8_invalid_reset_is_fatal [OF h1 h2, of send_statics_initial "[(opt_char CHR ''v'', [])]"
        "[]" "[''1'', ''/dev/ttyAMA0'']" "[]"]
    by simp
qed

text \<open>
  The claim as the specification states it fails: with \<^verbatim>\<open>--help\<close> before the invalid reset
  option the process prints the help text and ends with the success status.
\<close>

theorem C8_counterexample:
  "invalid_reset test_env ''99'' \<and>
   exited (main send_mode test_env send_statics_initial
      [(opt_char CHR ''h'', []), (OPT_RESET, ''99'')] [''1'', ''/dev/ttyAMA0''] [])
     = Some EXIT_SUCCESS \<and>
   EXIT_SUCCESS = 0 \<and>
   \<not> list_ex is_errx (trace (main send_mode test_env send_statics_initial
      [(opt_char CHR ''h'', []), (OPT_RESET, ''99'')] [''1'', ''/dev/ttyAMA0''] []))"
proof -
  have 1: "invalid_reset test_env ''99''"
    by (simp add: invalid_reset_def test_env_def read_num_def digit_val_def)
  have 2: "exited (main send_mode test_env send_statics_initial
      [(opt_char CHR ''h'', []), (OPT_RESET, ''99'')] [''1'', ''/dev/ttyAMA0''] [])
     = Some EXIT_SUCCESS"
    by (simp add: run_defs)
  have 3: "EXIT_SUCCESS = 0" by (simp add: EXIT_SUCCESS_def)
  have 4: "\<not> list_ex is_errx (trace (main send_mode test_env send_statics_initial
      [(opt_char CHR ''h'', []), (OPT_RESET, ''99'')] [''1'', ''/dev/ttyAMA0''] []))"
    by (simp add: run_defs)
  from 1 2 3 4 show ?thesis by (intro conjI)
qed

end
